theory Spec2Isabelle
  imports Complex_Main "HOL-Library.Word" "HOL-Library.Sublist" "HOL-Library.Multiset"
begin

section \<open>JavaScript strings\<close>

text \<open>
  A JavaScript string is a sequence of UTF-16 code units. The regular expressions of
  the service carry no \<open>u\<close> flag, so they, \<open>trim\<close> and \<open>split\<close> all work on
  single code units. \<open>js\<close> turns an ASCII literal into such a string.
\<close>

type_synonym jschar = "16 word"
type_synonym jsstring = "jschar list"
type_synonym buffer = "8 word list"

definition js :: "string \<Rightarrow> jsstring" where
  "js s = map of_char s"

text \<open>
  The class \<open>\s\<close> of a regular expression, which is also what \<open>String.prototype.trim\<close>
  and the numeric parsers strip: the WhiteSpace and LineTerminator code points.
\<close>

definition isWhiteSpace :: "jschar \<Rightarrow> bool" where
  "isWhiteSpace c \<longleftrightarrow>
     (0x09 \<le> c \<and> c \<le> 0x0D) \<or> c = 0x20 \<or> c = 0xA0 \<or> c = 0x1680 \<or>
     (0x2000 \<le> c \<and> c \<le> 0x200A) \<or> c = 0x2028 \<or> c = 0x2029 \<or> c = 0x202F \<or>
     c = 0x205F \<or> c = 0x3000 \<or> c = 0xFEFF"

text \<open>The class \<open>[a-zA-Z0-9]\<close>.\<close>

definition isAlnum :: "jschar \<Rightarrow> bool" where
  "isAlnum c \<longleftrightarrow>
     (0x61 \<le> c \<and> c \<le> 0x7A) \<or> (0x41 \<le> c \<and> c \<le> 0x5A) \<or> (0x30 \<le> c \<and> c \<le> 0x39)"

definition trim :: "jsstring \<Rightarrow> jsstring" where
  "trim s = rev (dropWhile isWhiteSpace (rev (dropWhile isWhiteSpace s)))"

text \<open>\<open>s.split(',')\<close>: the pieces between commas; never the empty list.\<close>

fun split_comma :: "jsstring \<Rightarrow> jsstring list" where
  "split_comma [] = [[]]"
| "split_comma (c # cs) =
     (if c = 0x2C then [] # split_comma cs
      else (case split_comma cs of [] \<Rightarrow> [[c]] | p # ps \<Rightarrow> (c # p) # ps))"

section \<open>File names (watermarkService, processMultipleWatermarks)\<close>

text \<open>
  \<open>text.replace(/[^a-zA-Z0-9\s]/g, '')\<close> deletes every code unit outside the two
  classes; \<open>.replace(/\s+/g, '_')\<close> then puts one underscore (0x5F) in place of every
  maximal run of whitespace.
\<close>

definition strip_special :: "jsstring \<Rightarrow> jsstring" where
  "strip_special s = filter (\<lambda>c. isAlnum c \<or> isWhiteSpace c) s"

function collapse_ws :: "jsstring \<Rightarrow> jsstring" where
  "collapse_ws [] = []"
| "collapse_ws (c # cs) =
     (if isWhiteSpace c then 0x5F # collapse_ws (dropWhile isWhiteSpace cs)
      else c # collapse_ws cs)"
  by pat_completeness auto
termination
  by (relation "measure length") (auto simp: le_imp_less_Suc length_dropWhile_le)

definition sanitizedName :: "jsstring \<Rightarrow> jsstring" where
  "sanitizedName s = collapse_ws (strip_special s)"

section \<open>Numbers and the numeric parsers\<close>

text \<open>
  A JavaScript number is an IEEE double. \<open>Fin q\<close> stands for the double nearest to the
  rational \<open>q\<close>. The control flow of the service looks at a number only through its
  truthiness: NaN and the two zeros are falsy, everything else is truthy. A decimal
  value rounds to a zero exactly when its magnitude is at most the half of the least
  positive double, which is 2 to the power -1075.
\<close>

datatype jsnum = NaN | PosInf | NegInf | Fin rat

definition is_zero :: "jsnum \<Rightarrow> bool" where
  "is_zero n = (case n of Fin q \<Rightarrow> \<bar>q\<bar> \<le> 1 / 2 ^ 1075 | _ \<Rightarrow> False)"

definition truthy :: "jsnum \<Rightarrow> bool" where
  "truthy n \<longleftrightarrow> n \<noteq> NaN \<and> \<not> is_zero n"

text \<open>\<open>a || b\<close> on numbers.\<close>

definition or_default :: "jsnum \<Rightarrow> jsnum \<Rightarrow> jsnum" where
  "or_default a b = (if truthy a then a else b)"

text \<open>
  A text field of the parsed multipart body: absent (\<open>undefined\<close>), one string, or an
  array of strings when the form repeats the field. \<open>ToString\<close> is the conversion that
  \<open>parseInt\<close> and \<open>parseFloat\<close> apply to their argument.
\<close>

datatype field = Absent | Str jsstring | Arr "jsstring list"

fun join_comma :: "jsstring list \<Rightarrow> jsstring" where
  "join_comma [] = []"
| "join_comma [s] = s"
| "join_comma (s # t # ts) = s @ 0x2C # join_comma (t # ts)"

definition ToString :: "field \<Rightarrow> jsstring" where
  "ToString v = (case v of Absent \<Rightarrow> js ''undefined'' | Str s \<Rightarrow> s | Arr ss \<Rightarrow> join_comma ss)"

definition digitValue :: "jschar \<Rightarrow> nat" where
  "digitValue c =
     (if 0x30 \<le> c \<and> c \<le> 0x39 then unat c - 48
      else if 0x61 \<le> c \<and> c \<le> 0x7A then unat c - 87
      else if 0x41 \<le> c \<and> c \<le> 0x5A then unat c - 55
      else 36)"

definition isRadixDigit :: "nat \<Rightarrow> jschar \<Rightarrow> bool" where
  "isRadixDigit R c \<longleftrightarrow> digitValue c < R"

definition digitsValue :: "nat \<Rightarrow> jsstring \<Rightarrow> nat" where
  "digitsValue R ds = foldl (\<lambda>acc c. acc * R + digitValue c) 0 ds"

text \<open>The sign prefix shared by both parsers: whether it is a minus, and the rest.\<close>

definition strip_sign :: "jsstring \<Rightarrow> bool \<times> jsstring" where
  "strip_sign s =
     (case s of [] \<Rightarrow> (False, [])
      | c # cs \<Rightarrow> if c = 0x2D then (True, cs) else if c = 0x2B then (False, cs) else (False, s))"

definition signed :: "bool \<Rightarrow> rat \<Rightarrow> rat" where
  "signed neg q = (if neg then - q else q)"

text \<open>
  \<open>parseInt(v)\<close> with no radix: leading whitespace and a sign are skipped, a \<open>0x\<close> or
  \<open>0X\<close> prefix selects radix 16, and the longest run of digits is read; NaN when that
  run is empty.
\<close>

definition parseInt :: "field \<Rightarrow> jsnum" where
  "parseInt v =
     (let (neg, s1) = strip_sign (dropWhile isWhiteSpace (ToString v));
          hex = (take 2 s1 = js ''0x'' \<or> take 2 s1 = js ''0X'');
          R = (if hex then 16 else 10);
          z = takeWhile (isRadixDigit R) (if hex then drop 2 s1 else s1)
      in if z = [] then NaN else Fin (signed neg (of_nat (digitsValue R z))))"

text \<open>
  The exponent part of a decimal literal, if the text starts with one: \<open>e\<close> or \<open>E\<close>, an
  optional sign, and at least one digit. Without the digits there is no exponent part.
\<close>

definition exponentPart :: "jsstring \<Rightarrow> int" where
  "exponentPart s =
     (case s of [] \<Rightarrow> 0
      | c # cs \<Rightarrow>
          if c = 0x65 \<or> c = 0x45 then
            (let (neg, ds) = strip_sign cs; e = takeWhile (isRadixDigit 10) ds
             in if e = [] then 0
                else if neg then - int (digitsValue 10 e) else int (digitsValue 10 e))
          else 0)"

definition scale10 :: "rat \<Rightarrow> int \<Rightarrow> rat" where
  "scale10 q e = (if 0 \<le> e then q * 10 ^ nat e else q / 10 ^ nat (- e))"

text \<open>
  \<open>parseFloat(v)\<close>: leading whitespace is skipped and the longest prefix that is a
  decimal literal is read (sign, \<open>Infinity\<close>, or digits with an optional fraction and
  exponent); NaN when there is none.
\<close>

definition parseFloat :: "field \<Rightarrow> jsnum" where
  "parseFloat v =
     (let (neg, s1) = strip_sign (dropWhile isWhiteSpace (ToString v)) in
      if prefix (js ''Infinity'') s1 then (if neg then NegInf else PosInf)
      else
        let ip = takeWhile (isRadixDigit 10) s1;
            r1 = dropWhile (isRadixDigit 10) s1;
            dot = (case r1 of [] \<Rightarrow> False | c # _ \<Rightarrow> c = 0x2E);
            fp = (if dot then takeWhile (isRadixDigit 10) (tl r1) else []);
            r2 = (if dot then dropWhile (isRadixDigit 10) (tl r1) else r1)
        in if ip = [] \<and> fp = [] then NaN
           else Fin (signed neg
             (scale10 (of_nat (digitsValue 10 (ip @ fp)))
                (exponentPart r2 - int (length fp)))))"

section \<open>The request and its options (server.js)\<close>

text \<open>
  The appearance options that the route handler builds from the body, lines 90 to 96:
  every field goes through its parser and then through \<open>|| default\<close>.
\<close>

record body =
  watermarks :: field
  fontSize_field :: field
  angle_field :: field
  opacity_field :: field
  posX_field :: field
  posY_field :: field

record options =
  fontSize :: "jsnum option"
  angle :: "jsnum option"
  opacity :: "jsnum option"
  posX :: "jsnum option"
  posY :: "jsnum option"

definition parse_options :: "body \<Rightarrow> options" where
  "parse_options b =
     \<lparr> fontSize = Some (or_default (parseInt (fontSize_field b)) (Fin 30)),
       angle = Some (or_default (parseInt (angle_field b)) (Fin 55)),
       opacity = Some (or_default (parseFloat (opacity_field b)) (Fin (1/2))),
       posX = Some (or_default (parseFloat (posX_field b)) (Fin 50)),
       posY = Some (or_default (parseFloat (posY_field b)) (Fin 50)) \<rparr>"

section \<open>The overlay generator (watermarkService, createWatermarkPdf)\<close>

text \<open>
  The collaborators that the repository calls but does not contain are parameters of
  the model: the PDF library's parser (\<open>load\<close>, giving the page sizes of a buffer or
  the message of the error it throws), \<open>String.prototype.toUpperCase\<close>, division and
  multiplication of doubles, the checks of \<open>page.drawText\<close> other than the range of the
  opacity (\<open>draw_rejects\<close>, giving the message of the error when the call throws, as it
  does for a text that the font cannot encode), the text of the library's range error
  (\<open>range_message\<close>), the remote compositing service (\<open>submit\<close>, indexed by the number
  of jobs submitted before, giving the composed document or the message of the error),
  and the archive writer: whether it succeeds (\<open>archive\<close>) and when the \<open>lstat\<close> of the
  file queued at a position returns (\<open>stat_time\<close>).
\<close>

record page_size =
  width :: jsnum
  height :: jsnum

datatype font = TimesRoman

record drawn_text =
  d_text :: jsstring
  d_x :: jsnum
  d_y :: jsnum
  d_size :: jsnum
  d_font :: font
  d_color :: "rat \<times> rat \<times> rat"
  d_opacity :: jsnum
  d_rotate :: jsnum

record overlay_page =
  page_width :: jsnum
  page_height :: jsnum
  drawn :: "drawn_text list"

datatype archive_outcome = ArchiveOk | ArchiveError bool

record env =
  load :: "buffer \<Rightarrow> string + page_size list"
  toUpperCase :: "jsstring \<Rightarrow> jsstring"
  num_div :: "jsnum \<Rightarrow> jsnum \<Rightarrow> jsnum"
  num_mul :: "jsnum \<Rightarrow> jsnum \<Rightarrow> jsnum"
  draw_rejects :: "drawn_text \<Rightarrow> string option"
  range_message :: "jsnum \<Rightarrow> string"
  submit :: "nat \<Rightarrow> buffer \<Rightarrow> overlay_page list \<Rightarrow> string + buffer"
  archive :: archive_outcome
  stat_time :: "nat \<Rightarrow> nat"
  outputDir :: jsstring
  zipFileName :: jsstring

text \<open>
  What a call can throw: the parser's error, the TypeError of \<open>pages[-1].getSize()\<close> on a
  document without pages, an error of \<open>page.drawText\<close>, and an error of the remote
  service.
\<close>

datatype error = ParseFailure string | NoReferencePage | DrawFailure string | RemoteFailure string

definition message :: "error \<Rightarrow> string" where
  "message err = (case err of ParseFailure m \<Rightarrow> m
     | NoReferencePage \<Rightarrow> ''Cannot read properties of undefined (reading 'getSize')''
     | DrawFailure m \<Rightarrow> m
     | RemoteFailure m \<Rightarrow> m)"

text \<open>
  \<open>page.drawText\<close> throws when the opacity is below 0 or above 1. The comparison is one
  of doubles: the double of \<open>Fin q\<close> is above 1 when \<open>q\<close> is above the midpoint between 1
  and the next double, and below 0 when \<open>q\<close> does not round to a zero. NaN passes the
  comparison and is left to the other checks of the call.
\<close>

definition opacity_in_range :: "jsnum \<Rightarrow> bool" where
  "opacity_in_range n =
     (case n of NaN \<Rightarrow> True | PosInf \<Rightarrow> False | NegInf \<Rightarrow> False
      | Fin q \<Rightarrow> - (1 / 2 ^ 1075) \<le> q \<and> q \<le> 1 + 1 / 2 ^ 53)"

definition drawText :: "env \<Rightarrow> drawn_text \<Rightarrow> string option" where
  "drawText e d =
     (if opacity_in_range (d_opacity d) then draw_rejects e d
      else Some (range_message e (d_opacity d)))"

text \<open>A destructuring default applies to a property that is \<open>undefined\<close>, and only then.\<close>

definition with_default :: "jsnum option \<Rightarrow> jsnum \<Rightarrow> jsnum" where
  "with_default v d = (case v of None \<Rightarrow> d | Some n \<Rightarrow> n)"

definition createWatermarkPdf ::
  "env \<Rightarrow> buffer \<Rightarrow> jsstring \<Rightarrow> options \<Rightarrow> error + overlay_page list" where
  "createWatermarkPdf e sourcePdfBuffer watermarkText opts =
     (case load e sourcePdfBuffer of
        Inl m \<Rightarrow> Inl (ParseFailure m)
      | Inr pages \<Rightarrow>
          let refPageIndex = min 2 (int (length pages) - 1) in
          if refPageIndex < 0 then Inl NoReferencePage
          else
            let ref = pages ! nat refPageIndex;
                x = num_mul e (num_div e (with_default (posX opts) (Fin 50)) (Fin 100)) (width ref);
                y = num_mul e (num_div e (with_default (posY opts) (Fin 50)) (Fin 100)) (height ref);
                d = \<lparr> d_text = toUpperCase e watermarkText, d_x = x, d_y = y,
                      d_size = with_default (fontSize opts) (Fin 30),
                      d_font = TimesRoman, d_color = (1/2, 1/2, 1/2),
                      d_opacity = with_default (opacity opts) (Fin (1/2)),
                      d_rotate = with_default (angle opts) (Fin 55) \<rparr>
            in (case drawText e d of
                  Some m \<Rightarrow> Inl (DrawFailure m)
                | None \<Rightarrow>
                    Inr [\<lparr> page_width = width ref, page_height = height ref, drawn = [d] \<rparr>]))"

section \<open>The orchestrator (watermarkService, applyWatermark and processMultipleWatermarks)\<close>

text \<open>
  The state that a request can change: the files and directories on disk, the number
  of overlays built and of jobs submitted to the remote service so far, and the
  removals that a timer will run five seconds later. A file holds a document, an
  archive (the list of its entries: name and content), or what a writer that failed
  left in it. Calls of the file system are taken to succeed.
\<close>

datatype content =
  Document buffer | Archive "(jsstring \<times> content option) list" | Truncated

record world =
  files :: "jsstring \<rightharpoonup> content"
  dirs :: "jsstring set"
  overlays :: nat
  jobs :: nat
  timers :: "jsstring list list"

text \<open>
  \<open>path.join\<close> and \<open>path.basename\<close> on POSIX paths, for a directory that is already
  normalised and a last segment without separators, which is all the service joins.
\<close>

definition path_join :: "jsstring \<Rightarrow> jsstring \<Rightarrow> jsstring" where
  "path_join d n = d @ 0x2F # n"

definition basename :: "jsstring \<Rightarrow> jsstring" where
  "basename p = rev (takeWhile (\<lambda>c. c \<noteq> 0x2F) (rev p))"

definition mkdirSync :: "jsstring \<Rightarrow> world \<Rightarrow> world" where
  "mkdirSync d st = st\<lparr>dirs := insert d (dirs st)\<rparr>"

definition inside :: "jsstring \<Rightarrow> jsstring \<Rightarrow> bool" where
  "inside d p \<longleftrightarrow> prefix (d @ [0x2F]) p"

text \<open>\<open>fs.rmSync(d, { recursive: true, force: true })\<close>.\<close>

definition rmSync :: "jsstring \<Rightarrow> world \<Rightarrow> world" where
  "rmSync d st =
     st\<lparr>files := (\<lambda>p. if p = d \<or> inside d p then None else files st p),
        dirs := {x \<in> dirs st. x \<noteq> d \<and> \<not> inside d x}\<rparr>"

text \<open>
  \<open>applyWatermark\<close> builds the overlay, hands source and overlay to the remote service
  and writes what comes back to \<open>outputPath\<close>. The copies it keeps under \<open>temp/\<close> while
  the job runs are unlinked in its \<open>finally\<close> block and are left out of the state.
\<close>

definition applyWatermark ::
  "env \<Rightarrow> buffer \<Rightarrow> jsstring \<Rightarrow> jsstring \<Rightarrow> options \<Rightarrow> world \<Rightarrow> (error + jsstring) \<times> world" where
  "applyWatermark e inputPdfBuffer watermarkText outputPath opts st =
     (case createWatermarkPdf e inputPdfBuffer watermarkText opts of
        Inl err \<Rightarrow> (Inl err, st)
      | Inr watermarkPdf \<Rightarrow>
          let st1 = st\<lparr>overlays := overlays st + 1\<rparr>;
              st2 = st1\<lparr>jobs := jobs st1 + 1\<rparr>
          in (case submit e (jobs st1) inputPdfBuffer watermarkPdf of
                Inl m \<Rightarrow> (Inl (RemoteFailure m), st2)
              | Inr result \<Rightarrow>
                  (Inr outputPath, st2\<lparr>files := (files st2)(outputPath \<mapsto> Document result)\<rparr>)))"

text \<open>The path that the loop gives the result of a (trimmed) phrase.\<close>

definition outputPath :: "jsstring \<Rightarrow> jsstring \<Rightarrow> jsstring" where
  "outputPath dir t = path_join dir (sanitizedName t @ js ''.pdf'')"

text \<open>The \<open>for\<close> loop of \<open>processMultipleWatermarks\<close>, one phrase after the other.\<close>

fun process_loop ::
  "env \<Rightarrow> buffer \<Rightarrow> jsstring \<Rightarrow> options \<Rightarrow> jsstring list \<Rightarrow> jsstring list \<Rightarrow> world \<Rightarrow>
   (error + jsstring list) \<times> world" where
  "process_loop e buf dir opts [] outputPaths st = (Inr outputPaths, st)"
| "process_loop e buf dir opts (w # ws) outputPaths st =
     (let text = trim w in
      if text = [] then process_loop e buf dir opts ws outputPaths st
      else
        (case applyWatermark e buf text (outputPath dir text) opts st of
           (Inl err, st') \<Rightarrow> (Inl err, st')
         | (Inr p, st') \<Rightarrow>
             process_loop e buf dir opts ws (outputPaths @ [outputPath dir text]) st'))"

definition processMultipleWatermarks ::
  "env \<Rightarrow> buffer \<Rightarrow> jsstring list \<Rightarrow> jsstring \<Rightarrow> options \<Rightarrow> world \<Rightarrow>
   (error + jsstring list) \<times> world" where
  "processMultipleWatermarks e inputPdfBuffer watermarkTexts dir opts st =
     process_loop e inputPdfBuffer dir opts watermarkTexts []
       (if dir \<in> dirs st then st else mkdirSync dir st)"

section \<open>The endpoint (server.js, POST /api/watermark)\<close>

record upload =
  mimetype :: string
  buffer :: buffer

record request =
  pdf_part :: "upload option"
  req_body :: body

datatype payload = Json string "string option" | Stream "content option" | ErrorPage string

record response =
  status :: nat
  content_type :: string
  disposition :: "jsstring option"
  payload :: payload

text \<open>
  The upload middleware, \<open>upload.single('pdf')\<close> with the file filter and the size limit
  of the configuration. It hands the route \<open>req.file\<close> (absent when the form has no
  such part), or passes an error on, which then reaches the framework's default error
  handler because the application installs none of its own: status 500 and an HTML
  page, for an error without a status.
\<close>

definition upload_single :: "request \<Rightarrow> string + upload option" where
  "upload_single r =
     (case pdf_part r of
        None \<Rightarrow> Inr None
      | Some f \<Rightarrow>
          if mimetype f = ''application/pdf'' then
            (if length (buffer f) > 50 * 1024 * 1024 then Inl ''File too large'' else Inr (Some f))
          else Inl ''Only PDF files are allowed'')"

definition default_error_handler :: "string \<Rightarrow> response" where
  "default_error_handler m =
     \<lparr> status = 500, content_type = ''text/html; charset=utf-8'', disposition = None,
       payload = ErrorPage m \<rparr>"

text \<open>\<open>res.status(n).json({ error, details })\<close>.\<close>

definition json_response :: "nat \<Rightarrow> string \<Rightarrow> string option \<Rightarrow> response" where
  "json_response n err details =
     \<lparr> status = n, content_type = ''application/json; charset=utf-8'', disposition = None,
       payload = Json err details \<rparr>"

definition watermarkTexts_of :: "jsstring \<Rightarrow> jsstring list" where
  "watermarkTexts_of w = filter (\<lambda>t. length t > 0) (map trim (split_comma w))"

text \<open>The \<open>catch\<close> block of the handler.\<close>

definition cleanup_on_error :: "jsstring \<Rightarrow> world \<Rightarrow> world" where
  "cleanup_on_error sessionOutputDir st =
     (if sessionOutputDir \<in> dirs st then rmSync sessionOutputDir st else st)"

text \<open>
  \<open>archive.file(filePath, ...)\<close> only queues the path. The archive writer calls \<open>lstat\<close>
  on the queued paths, several at a time, and appends each file when its \<open>lstat\<close>
  returns, so the entries stand in the order of these returns (the order of the queue
  between two that return together).
\<close>

definition append_order :: "env \<Rightarrow> jsstring list \<Rightarrow> jsstring list" where
  "append_order e ps = map snd (sort_key (\<lambda>(i, p). stat_time e i) (enumerate 0 ps))"

text \<open>
  Packaging of two or more files. The write stream creates the file at \<open>zipPath\<close>
  before the archive writer runs. When the writer reports an error, its \<open>error\<close>
  listener answers; \<open>ArchiveError True\<close> is the case where \<open>finalize()\<close> rejects as well,
  so that the \<open>catch\<close> block runs after the answer has gone out (its own answer comes too
  late to be sent).
\<close>

definition send_zip :: "env \<Rightarrow> jsstring \<Rightarrow> jsstring list \<Rightarrow> world \<Rightarrow> response \<times> world" where
  "send_zip e sessionOutputDir outputPaths st =
     (let zipPath = path_join (outputDir e) (zipFileName e) in
      case archive e of
        ArchiveOk \<Rightarrow>
          (let zip = Archive (map (\<lambda>p. (basename p, files st p)) (append_order e outputPaths)) in
           (\<lparr> status = 200, content_type = ''application/zip'',
              disposition = Some (zipFileName e), payload = Stream (Some zip) \<rparr>,
            st\<lparr>files := (files st)(zipPath \<mapsto> zip),
               timers := timers st @ [[sessionOutputDir, zipPath]]\<rparr>))
      | ArchiveError rejects \<Rightarrow>
          (let st1 = st\<lparr>files := (files st)(zipPath \<mapsto> Truncated)\<rparr> in
           (json_response 500 ''Failed to create ZIP archive'' None,
            if rejects then cleanup_on_error sessionOutputDir st1 else st1)))"

definition watermark_route ::
  "env \<Rightarrow> jsstring \<Rightarrow> upload option \<Rightarrow> body \<Rightarrow> world \<Rightarrow> response \<times> world" where
  "watermark_route e sessionId file b st =
     (let sessionOutputDir = path_join (outputDir e) sessionId in
      case file of
        None \<Rightarrow> (json_response 400 ''No PDF file uploaded'' None, st)
      | Some f \<Rightarrow>
          (case watermarks b of
             Str w \<Rightarrow>
               if w = [] then (json_response 400 ''Watermarks text is required'' None, st)
               else
                 let watermarkTexts = watermarkTexts_of w in
                 if length watermarkTexts = 0 then
                   (json_response 400 ''At least one watermark text is required'' None, st)
                 else
                   (case processMultipleWatermarks e (buffer f) watermarkTexts sessionOutputDir
                           (parse_options b) st of
                      (Inl err, st1) \<Rightarrow>
                        (json_response 500 ''Failed to process watermark request''
                           (Some (message err)),
                         cleanup_on_error sessionOutputDir st1)
                    | (Inr outputPaths, st1) \<Rightarrow>
                        if length outputPaths = 0 then
                          (json_response 500 ''No files were generated'' None, st1)
                        else if length outputPaths = 1 then
                          (\<lparr> status = 200, content_type = ''application/pdf'',
                             disposition = Some (basename (hd outputPaths)),
                             payload = Stream (files st1 (hd outputPaths)) \<rparr>,
                           st1\<lparr>timers := timers st1 @ [[sessionOutputDir]]\<rparr>)
                        else send_zip e sessionOutputDir outputPaths st1)
           | _ \<Rightarrow> (json_response 400 ''Watermarks text is required'' None, st)))"

definition post_watermark :: "env \<Rightarrow> jsstring \<Rightarrow> request \<Rightarrow> world \<Rightarrow> response \<times> world" where
  "post_watermark e sessionId r st =
     (case upload_single r of
        Inl m \<Rightarrow> (default_error_handler m, st)
      | Inr file \<Rightarrow> watermark_route e sessionId file (req_body r) st)"

section \<open>Reference values\<close>

text \<open>
  What C1 expects of the orchestrator: one path per phrase that is non-empty after
  trimming, in the order of the phrases.
\<close>

definition expected_paths :: "jsstring \<Rightarrow> jsstring list \<Rightarrow> jsstring list" where
  "expected_paths dir texts = map (outputPath dir) (filter (\<lambda>t. t \<noteq> []) (map trim texts))"

text \<open>
  What C3 expects of the overlay: the reference page is the third page, or the last
  page of a document with fewer than three, and the text on the overlay is the phrase
  in upper case at (posX / 100 * width, posY / 100 * height), rotated by the angle, at
  the opacity, in Times Roman at the font size, where an option that is not given
  stands for its default.
\<close>

definition reference_page :: "page_size list \<Rightarrow> page_size" where
  "reference_page pages = (if 3 \<le> length pages then pages ! 2 else last pages)"

definition expected_text :: "env \<Rightarrow> page_size \<Rightarrow> jsstring \<Rightarrow> options \<Rightarrow> drawn_text" where
  "expected_text e ref phrase opts =
     \<lparr> d_text = toUpperCase e phrase,
       d_x = num_mul e (num_div e (case posX opts of None \<Rightarrow> Fin 50 | Some v \<Rightarrow> v) (Fin 100))
               (width ref),
       d_y = num_mul e (num_div e (case posY opts of None \<Rightarrow> Fin 50 | Some v \<Rightarrow> v) (Fin 100))
               (height ref),
       d_size = (case fontSize opts of None \<Rightarrow> Fin 30 | Some v \<Rightarrow> v),
       d_font = TimesRoman,
       d_color = (1/2, 1/2, 1/2),
       d_opacity = (case opacity opts of None \<Rightarrow> Fin (1/2) | Some v \<Rightarrow> v),
       d_rotate = (case angle opts of None \<Rightarrow> Fin 55 | Some v \<Rightarrow> v) \<rparr>"

definition expected_overlay :: "env \<Rightarrow> page_size list \<Rightarrow> jsstring \<Rightarrow> options \<Rightarrow> overlay_page list" where
  "expected_overlay e pages phrase opts =
     [\<lparr> page_width = width (reference_page pages), page_height = height (reference_page pages),
        drawn = [expected_text e (reference_page pages) phrase opts] \<rparr>]"

text \<open>
  A concrete environment, state and request on which the theorems below are run: a
  buffer parses when it is not empty, each byte after the first being one page (its
  width the byte, its height twice that); upper-casing is that of ASCII; arithmetic is
  exact; a text is drawn when all its code units are below 256; the remote service
  answers every job with the source followed by the number of the job; the archive
  writer succeeds and its \<open>lstat\<close> calls return in the order of the queue.
\<close>

definition fixture_env :: env where
  "fixture_env =
     \<lparr> load = (\<lambda>b. case b of [] \<Rightarrow> Inl ''No PDF header found''
          | _ # ps \<Rightarrow> Inr (map (\<lambda>x. \<lparr> width = Fin (of_nat (unat x)),
                                     height = Fin (2 * of_nat (unat x)) \<rparr>) ps)),
       toUpperCase = map (\<lambda>c. if 0x61 \<le> c \<and> c \<le> 0x7A then c - 0x20 else c),
       num_div = (\<lambda>a b. case (a, b) of (Fin p, Fin q) \<Rightarrow> if q = 0 then NaN else Fin (p / q)
          | _ \<Rightarrow> NaN),
       num_mul = (\<lambda>a b. case (a, b) of (Fin p, Fin q) \<Rightarrow> Fin (p * q) | _ \<Rightarrow> NaN),
       draw_rejects = (\<lambda>d. if list_all (\<lambda>c. c < 0x100) (d_text d) then None
          else Some ''WinAnsi cannot encode the text''),
       range_message = (\<lambda>n. ''opacity must be at least 0 and at most 1''),
       submit = (\<lambda>n src ov. Inr (src @ [of_nat n])),
       archive = ArchiveOk,
       stat_time = (\<lambda>i. i),
       outputDir = js ''output'',
       zipFileName = js ''watermarked_pdfs_0.zip'' \<rparr>"

definition fixture_world :: world where
  "fixture_world =
     \<lparr> files = Map.empty, dirs = {js ''output''}, overlays = 0, jobs = 0, timers = [] \<rparr>"

definition no_options :: "field \<Rightarrow> body" where
  "no_options w = \<lparr> watermarks = w, fontSize_field = Absent, angle_field = Absent,
     opacity_field = Absent, posX_field = Absent, posY_field = Absent \<rparr>"

definition all_zero :: body where
  "all_zero = \<lparr> watermarks = Absent, fontSize_field = Str (js ''0''),
     angle_field = Str (js ''0''), opacity_field = Str (js ''0''),
     posX_field = Str (js ''0''), posY_field = Str (js ''0.0'') \<rparr>"

definition fixture_request :: "string \<Rightarrow> string \<Rightarrow> request" where
  "fixture_request mime w =
     \<lparr> pdf_part = Some \<lparr> mimetype = mime, buffer = [37, 100, 200, 150, 90] \<rparr>,
       req_body = no_options (Str (js w)) \<rparr>"


text \<open>
  The environment in which the \<open>lstat\<close> of the first queued file returns after that of
  the second.
\<close>

definition late_first_env :: env where
  "late_first_env = fixture_env\<lparr>stat_time := (\<lambda>i. 1 - i)\<rparr>"

text \<open>The names of the entries of the archive that a response carries, in their order.\<close>

definition entry_names :: "response \<Rightarrow> jsstring list" where
  "entry_names resp =
     (case payload resp of Stream (Some (Archive entries)) \<Rightarrow> map fst entries | _ \<Rightarrow> [])"

section \<open>Properties of the file names\<close>

lemma underscore_classes: "\<not> isAlnum 0x5F" "\<not> isWhiteSpace 0x5F"
  by (simp_all add: isAlnum_def isWhiteSpace_def)

lemma alnum_not_ws: "isAlnum c \<Longrightarrow> \<not> isWhiteSpace c"
  unfolding isAlnum_def isWhiteSpace_def word_le_nat_alt
  by auto

lemma filter_dropWhile_ws:
  "filter (\<lambda>c. P c \<and> \<not> isWhiteSpace c) (dropWhile isWhiteSpace cs) =
   filter (\<lambda>c. P c \<and> \<not> isWhiteSpace c) cs"
  by (induction cs) auto

lemma strip_collapse:
  "strip_special (collapse_ws xs) = filter (\<lambda>c. isAlnum c \<and> \<not> isWhiteSpace c) xs"
proof (induction xs rule: collapse_ws.induct)
  case 1
  show ?case by (simp add: strip_special_def)
next
  case (2 c cs)
  show ?case
  proof (cases "isWhiteSpace c")
    case True
    with 2 show ?thesis
      using filter_dropWhile_ws [of isAlnum cs]
      by (simp add: strip_special_def underscore_classes)
  next
    case False
    with 2 show ?thesis by (simp add: strip_special_def)
  qed
qed

lemma collapse_no_ws: "\<not> list_ex isWhiteSpace xs \<Longrightarrow> collapse_ws xs = xs"
  by (induction xs) auto

lemma collapse_has_underscore: "list_ex isWhiteSpace xs \<Longrightarrow> 0x5F \<in> set (collapse_ws xs)"
  by (induction xs rule: collapse_ws.induct) auto

lemma filter_alnum_only: "filter (\<lambda>c. isAlnum c \<and> \<not> isWhiteSpace c) xs = filter isAlnum xs"
  by (rule filter_cong) (auto dest: alnum_not_ws)

lemma sanitize_twice: "sanitizedName (sanitizedName s) = filter isAlnum s"
proof -
  have "strip_special (sanitizedName s) = filter isAlnum (strip_special s)"
    by (simp add: sanitizedName_def strip_collapse filter_alnum_only)
  also have "\<dots> = filter isAlnum s"
    by (simp add: strip_special_def) (rule filter_cong, auto)
  finally have "strip_special (sanitizedName s) = filter isAlnum s" .
  moreover have "\<not> list_ex isWhiteSpace (filter isAlnum s)"
    by (auto simp: list_ex_iff dest: alnum_not_ws)
  ultimately show ?thesis
    by (simp add: sanitizedName_def [of "sanitizedName s"] collapse_no_ws)
qed

lemma sanitize_fixed_iff:
  "sanitizedName (sanitizedName s) = sanitizedName s \<longleftrightarrow> \<not> list_ex isWhiteSpace s"
proof
  assume eq: "sanitizedName (sanitizedName s) = sanitizedName s"
  show "\<not> list_ex isWhiteSpace s"
  proof
    assume "list_ex isWhiteSpace s"
    then have "list_ex isWhiteSpace (strip_special s)"
      by (auto simp: list_ex_iff strip_special_def)
    then have "0x5F \<in> set (sanitizedName s)"
      by (simp add: sanitizedName_def collapse_has_underscore)
    with eq have "0x5F \<in> set (filter isAlnum s)"
      by (simp add: sanitize_twice)
    then show False by (simp add: underscore_classes)
  qed
next
  assume nows: "\<not> list_ex isWhiteSpace s"
  then have "strip_special s = filter isAlnum s"
    by (auto simp: strip_special_def list_ex_iff intro: filter_cong)
  moreover have "\<not> list_ex isWhiteSpace (filter isAlnum s)"
    by (auto simp: list_ex_iff dest: alnum_not_ws)
  ultimately have fixed: "sanitizedName s = filter isAlnum s"
    by (simp add: sanitizedName_def collapse_no_ws)
  have "sanitizedName (sanitizedName s) = filter isAlnum s"
    by (rule sanitize_twice)
  also have "\<dots> = sanitizedName s"
    by (rule fixed [symmetric])
  finally show "sanitizedName (sanitizedName s) = sanitizedName s" .
qed

lemma sanitize_alnum: "sanitizedName (filter isAlnum s) = filter isAlnum s"
proof -
  have "\<not> list_ex isWhiteSpace (filter isAlnum s)"
    by (auto simp: list_ex_iff dest: alnum_not_ws)
  then have "sanitizedName (sanitizedName (filter isAlnum s)) = sanitizedName (filter isAlnum s)"
    using sanitize_fixed_iff [of "filter isAlnum s"] by blast
  then have "sanitizedName (filter isAlnum s) = sanitizedName (sanitizedName (filter isAlnum s))"
    by (rule sym)
  also have "\<dots> = filter isAlnum (filter isAlnum s)"
    by (rule sanitize_twice)
  also have "\<dots> = filter isAlnum s"
    by simp
  finally show ?thesis .
qed

text \<open>
  C2 as stated (sanitizing is idempotent) fails: the underscore that the second
  replacement writes is itself outside \<open>[a-zA-Z0-9\s]\<close>, so a second pass deletes it.
  ``For Alice'' becomes ``For_Alice'', and that becomes ``ForAlice''.
\<close>

theorem C2_sanitize_not_idempotent:
  "sanitizedName (sanitizedName (js ''For Alice'')) \<noteq> sanitizedName (js ''For Alice'')"
  by (simp add: sanitizedName_def strip_special_def js_def isAlnum_def isWhiteSpace_def)

text \<open>
  C2, amended: sanitizing a sanitized name keeps exactly the letters and digits of the
  phrase, so the second pass changes nothing if and only if the phrase has no
  whitespace; and from the second pass on the name is stable.
\<close>

theorem C2_sanitize_twice:
  "sanitizedName (sanitizedName s) = filter isAlnum s \<and>
   (sanitizedName (sanitizedName s) = sanitizedName s \<longleftrightarrow> \<not> list_ex isWhiteSpace s) \<and>
   sanitizedName (sanitizedName (sanitizedName s)) = sanitizedName (sanitizedName s)"
proof (intro conjI)
  show "sanitizedName (sanitizedName s) = filter isAlnum s"
    by (rule sanitize_twice)
  show "sanitizedName (sanitizedName s) = sanitizedName s \<longleftrightarrow> \<not> list_ex isWhiteSpace s"
    by (rule sanitize_fixed_iff)
  have "sanitizedName (sanitizedName (sanitizedName s)) = sanitizedName (filter isAlnum s)"
    by (simp only: sanitize_twice)
  also have "\<dots> = filter isAlnum s"
    by (rule sanitize_alnum)
  also have "\<dots> = sanitizedName (sanitizedName s)"
    by (rule sanitize_twice [symmetric])
  finally show "sanitizedName (sanitizedName (sanitizedName s)) = sanitizedName (sanitizedName s)" .
qed

theorem C2_sanitize_twice_witness:
  "sanitizedName (sanitizedName (js ''For Bob'')) = js ''ForBob'' \<and>
   sanitizedName (sanitizedName (js ''ForBob'')) = sanitizedName (js ''ForBob'')"
proof -
  have a: "filter isAlnum (js ''For Bob'') = js ''ForBob''"
    by (simp add: js_def isAlnum_def)
  have b: "\<not> list_ex isWhiteSpace (js ''ForBob'')"
    by (simp add: js_def isWhiteSpace_def)
  from C2_sanitize_twice [of "js ''For Bob''"] a
  have "sanitizedName (sanitizedName (js ''For Bob'')) = js ''ForBob''"
    by (simp only:)
  moreover from C2_sanitize_twice [of "js ''ForBob''"] b
  have "sanitizedName (sanitizedName (js ''ForBob'')) = sanitizedName (js ''ForBob'')"
    by blast
  ultimately show ?thesis by blast
qed

section \<open>Properties of the options\<close>

lemmas parser_defs = parseInt_def parseFloat_def ToString_def js_def strip_sign_def
  isWhiteSpace_def isRadixDigit_def digitValue_def digitsValue_def signed_def scale10_def
  exponentPart_def

lemma parse_absent: "parseInt Absent = NaN" "parseFloat Absent = NaN"
  by (simp_all add: parser_defs)

lemma or_default_NaN: "or_default NaN d = d"
  by (simp add: or_default_def truthy_def)

lemma or_default_zero: "is_zero n \<Longrightarrow> or_default n d = d"
  by (simp add: or_default_def truthy_def)

lemma or_default_truthy: "truthy n \<Longrightarrow> or_default n d = n"
  by (simp add: or_default_def)

text \<open>
  C6 as stated fails where ``invalid'' means more than ``without a number'': the code
  checks no range and reads the longest numeric start of a text. An opacity of 7, outside
  the documented range from 0 to 1, is used as 7, and the font size ``12abc'' is used
  as 12.
\<close>

theorem C6_invalid_values_kept:
  "opacity (parse_options ((no_options Absent)\<lparr>opacity_field := Str (js ''7'')\<rparr>)) = Some (Fin 7) \<and>
   fontSize (parse_options ((no_options Absent)\<lparr>fontSize_field := Str (js ''12abc'')\<rparr>)) = Some (Fin 12)"
  by (simp add: parse_options_def no_options_def parser_defs or_default_def truthy_def is_zero_def)

text \<open>
  C6, amended: an appearance option that is absent, or from whose text the parser reads
  no number (it returns NaN), takes its default, 30, 55, 0.5, 50 and 50 in the order of
  the fields; a request that omits all five gets exactly these five defaults. Every
  other text is used as the number that the parser reads from it, unless that is zero.
\<close>

theorem C6_defaults:
  "(fontSize_field b = Absent \<or> parseInt (fontSize_field b) = NaN \<longrightarrow>
      fontSize (parse_options b) = Some (Fin 30)) \<and>
   (angle_field b = Absent \<or> parseInt (angle_field b) = NaN \<longrightarrow>
      angle (parse_options b) = Some (Fin 55)) \<and>
   (opacity_field b = Absent \<or> parseFloat (opacity_field b) = NaN \<longrightarrow>
      opacity (parse_options b) = Some (Fin (1/2))) \<and>
   (posX_field b = Absent \<or> parseFloat (posX_field b) = NaN \<longrightarrow>
      posX (parse_options b) = Some (Fin 50)) \<and>
   (posY_field b = Absent \<or> parseFloat (posY_field b) = NaN \<longrightarrow>
      posY (parse_options b) = Some (Fin 50)) \<and>
   (fontSize_field b = Absent \<and> angle_field b = Absent \<and> opacity_field b = Absent \<and>
    posX_field b = Absent \<and> posY_field b = Absent \<longrightarrow>
      parse_options b = \<lparr> fontSize = Some (Fin 30), angle = Some (Fin 55),
        opacity = Some (Fin (1/2)), posX = Some (Fin 50), posY = Some (Fin 50) \<rparr>) \<and>
   (truthy (parseInt (fontSize_field b)) \<longrightarrow>
      fontSize (parse_options b) = Some (parseInt (fontSize_field b))) \<and>
   (truthy (parseInt (angle_field b)) \<longrightarrow>
      angle (parse_options b) = Some (parseInt (angle_field b))) \<and>
   (truthy (parseFloat (opacity_field b)) \<longrightarrow>
      opacity (parse_options b) = Some (parseFloat (opacity_field b))) \<and>
   (truthy (parseFloat (posX_field b)) \<longrightarrow>
      posX (parse_options b) = Some (parseFloat (posX_field b))) \<and>
   (truthy (parseFloat (posY_field b)) \<longrightarrow>
      posY (parse_options b) = Some (parseFloat (posY_field b)))"
  by (auto simp: parse_options_def parse_absent or_default_NaN or_default_truthy)

theorem C6_defaults_witness:
  "parse_options (no_options Absent) =
     \<lparr> fontSize = Some (Fin 30), angle = Some (Fin 55), opacity = Some (Fin (1/2)),
       posX = Some (Fin 50), posY = Some (Fin 50) \<rparr> \<and>
   parseInt (Str (js ''large'')) = NaN \<and>
   fontSize (parse_options ((no_options Absent)\<lparr>fontSize_field := Str (js ''large'')\<rparr>)) = Some (Fin 30) \<and>
   parseFloat (Str (js ''.'')) = NaN \<and>
   opacity (parse_options ((no_options Absent)\<lparr>opacity_field := Str (js ''.'')\<rparr>)) = Some (Fin (1/2)) \<and>
   parseFloat (Str (js '' 25.5%'')) = Fin (51/2) \<and>
   posX (parse_options ((no_options Absent)\<lparr>posX_field := Str (js '' 25.5%'')\<rparr>)) = Some (Fin (51/2))"
proof -
  have a: "parseInt (Str (js ''large'')) = NaN" "parseFloat (Str (js ''.'')) = NaN"
    "parseFloat (Str (js '' 25.5%'')) = Fin (51/2)"
    by (simp_all add: parser_defs)
  have t: "truthy (Fin (51/2))"
    by (simp add: truthy_def is_zero_def)
  show ?thesis
    using a t C6_defaults [of "no_options Absent"]
      C6_defaults [of "(no_options Absent)\<lparr>fontSize_field := Str (js ''large'')\<rparr>"]
      C6_defaults [of "(no_options Absent)\<lparr>opacity_field := Str (js ''.'')\<rparr>"]
      C6_defaults [of "(no_options Absent)\<lparr>posX_field := Str (js '' 25.5%'')\<rparr>"]
    by (simp add: no_options_def)
qed

text \<open>
  C9: a field that parses to zero is falsy, so \<open>||\<close> discards the zero and the default
  of the field is applied, although 0 is an angle, an opacity and a position of the
  documented ranges.
\<close>

theorem C9_zero_discarded:
  "(is_zero (parseInt (fontSize_field b)) \<longrightarrow> fontSize (parse_options b) = Some (Fin 30)) \<and>
   (is_zero (parseInt (angle_field b)) \<longrightarrow> angle (parse_options b) = Some (Fin 55)) \<and>
   (is_zero (parseFloat (opacity_field b)) \<longrightarrow> opacity (parse_options b) = Some (Fin (1/2))) \<and>
   (is_zero (parseFloat (posX_field b)) \<longrightarrow> posX (parse_options b) = Some (Fin 50)) \<and>
   (is_zero (parseFloat (posY_field b)) \<longrightarrow> posY (parse_options b) = Some (Fin 50))"
  by (simp add: parse_options_def or_default_zero)

theorem C9_zero_discarded_witness:
  "parseInt (Str (js ''0'')) = Fin 0 \<and> parseFloat (Str (js ''0'')) = Fin 0 \<and>
   parseFloat (Str (js ''0.0'')) = Fin 0 \<and> is_zero (Fin 0) \<and>
   parse_options all_zero =
     \<lparr> fontSize = Some (Fin 30), angle = Some (Fin 55), opacity = Some (Fin (1/2)),
       posX = Some (Fin 50), posY = Some (Fin 50) \<rparr>"
proof -
  have a: "parseInt (Str (js ''0'')) = Fin 0" "parseFloat (Str (js ''0'')) = Fin 0"
    "parseFloat (Str (js ''0.0'')) = Fin 0"
    by (simp_all add: parser_defs)
  have z: "is_zero (Fin 0)"
    by (simp add: is_zero_def)
  have "fontSize (parse_options all_zero) = Some (Fin 30) \<and>
    angle (parse_options all_zero) = Some (Fin 55) \<and>
    opacity (parse_options all_zero) = Some (Fin (1/2)) \<and>
    posX (parse_options all_zero) = Some (Fin 50) \<and>
    posY (parse_options all_zero) = Some (Fin 50)"
    using a z C9_zero_discarded [of all_zero] by (simp add: all_zero_def)
  then have "parse_options all_zero =
     \<lparr> fontSize = Some (Fin 30), angle = Some (Fin 55), opacity = Some (Fin (1/2)),
       posX = Some (Fin 50), posY = Some (Fin 50) \<rparr>"
    by (cases "parse_options all_zero") simp
  with a z show ?thesis by simp
qed

section \<open>Properties of the overlay generator\<close>

lemma reference_page_index:
  "pages \<noteq> [] \<Longrightarrow> reference_page pages = pages ! min 2 (length pages - 1)"
  by (auto simp: reference_page_def last_conv_nth min_def)

lemma createWatermarkPdf_parsed:
  assumes "load e src = Inr pages" and "pages \<noteq> []"
  shows "createWatermarkPdf e src phrase opts =
    (case drawText e (expected_text e (reference_page pages) phrase opts) of
       Some m \<Rightarrow> Inl (DrawFailure m)
     | None \<Rightarrow> Inr (expected_overlay e pages phrase opts))"
proof -
  let ?ref = "pages ! nat (min 2 (int (length pages) - 1))"
  let ?d = "\<lparr> d_text = toUpperCase e phrase,
      d_x = num_mul e (num_div e (with_default (posX opts) (Fin 50)) (Fin 100)) (width ?ref),
      d_y = num_mul e (num_div e (with_default (posY opts) (Fin 50)) (Fin 100)) (height ?ref),
      d_size = with_default (fontSize opts) (Fin 30), d_font = TimesRoman,
      d_color = (1/2, 1/2, 1/2), d_opacity = with_default (opacity opts) (Fin (1/2)),
      d_rotate = with_default (angle opts) (Fin 55) \<rparr>"
  have "nat (min 2 (int (length pages) - 1)) = min 2 (length pages - 1)"
    using assms(2) by (cases pages) auto
  then have ref: "?ref = reference_page pages"
    using reference_page_index [OF assms(2)] by simp
  have nonneg: "\<not> min 2 (int (length pages) - 1) < 0"
    using assms(2) by (cases pages) auto
  have d: "?d = expected_text e (reference_page pages) phrase opts"
    by (simp add: expected_text_def with_default_def ref)
  have "createWatermarkPdf e src phrase opts =
    (case drawText e ?d of
       Some m \<Rightarrow> Inl (DrawFailure m)
     | None \<Rightarrow> Inr [\<lparr> page_width = width ?ref, page_height = height ?ref, drawn = [?d] \<rparr>])"
    using assms(1) nonneg by (simp add: createWatermarkPdf_def Let_def)
  then show ?thesis
    unfolding ref d [unfolded ref] expected_overlay_def .
qed

lemma createWatermarkPdf_errors:
  "(load e buf = Inl m \<longrightarrow> createWatermarkPdf e buf t opts = Inl (ParseFailure m)) \<and>
   (load e buf = Inr [] \<longrightarrow> createWatermarkPdf e buf t opts = Inl NoReferencePage)"
  by (simp add: createWatermarkPdf_def)




section \<open>Properties of the orchestrator\<close>

lemmas name_defs = outputPath_def path_join_def sanitizedName_def strip_special_def js_def
  isAlnum_def isWhiteSpace_def trim_def



lemma applyWatermark_cases:
  "applyWatermark e buf t p opts st = (r, st') \<Longrightarrow>
     dirs st' = dirs st \<and> timers st' = timers st \<and> dom (files st) \<subseteq> dom (files st') \<and>
     (case r of Inl err \<Rightarrow> files st' = files st | Inr q \<Rightarrow> q = p \<and> files st' p \<noteq> None)"
  by (auto simp: applyWatermark_def Let_def split: sum.splits)

lemma applyWatermark_ok:
  assumes "createWatermarkPdf e buf t opts = Inr ov"
    and "\<forall>n ov. \<exists>r. submit e n buf ov = Inr r"
  shows "\<exists>st'. applyWatermark e buf t p opts st = (Inr p, st')"
proof -
  from assms(2) obtain r where "submit e (jobs (st\<lparr>overlays := overlays st + 1\<rparr>)) buf ov = Inr r"
    by blast
  with assms(1) show ?thesis
    by (simp add: applyWatermark_def Let_def)
qed

lemma process_loop_paths:
  "process_loop e buf dir opts ws acc st = (Inr ps, st') \<Longrightarrow> ps = acc @ expected_paths dir ws"
proof (induction ws arbitrary: acc st)
  case Nil
  then show ?case by (simp add: expected_paths_def)
next
  case (Cons w ws)
  show ?case
  proof (cases "trim w = []")
    case True
    with Cons show ?thesis by (simp add: expected_paths_def)
  next
    case False
    obtain r st1 where a: "applyWatermark e buf (trim w) (outputPath dir (trim w)) opts st = (r, st1)"
      by (cases "applyWatermark e buf (trim w) (outputPath dir (trim w)) opts st")
    with Cons.prems False obtain q where "r = Inr q"
      by (cases r) (auto simp: Let_def outputPath_def)
    with Cons.prems False a
    have "process_loop e buf dir opts ws (acc @ [outputPath dir (trim w)]) st1 = (Inr ps, st')"
      by (simp add: Let_def outputPath_def)
    from Cons.IH [OF this] False show ?thesis
      by (simp add: expected_paths_def)
  qed
qed

lemma process_loop_ok:
  assumes "\<forall>n ov. \<exists>r. submit e n buf ov = Inr r"
  shows "\<forall>t \<in> set ws. trim t \<noteq> [] \<longrightarrow> (\<exists>ov. createWatermarkPdf e buf (trim t) opts = Inr ov) \<Longrightarrow>
    \<exists>st'. process_loop e buf dir opts ws acc st = (Inr (acc @ expected_paths dir ws), st')"
proof (induction ws arbitrary: acc st)
  case Nil
  show ?case by (simp add: expected_paths_def)
next
  case (Cons w ws)
  from Cons.prems have rest:
    "\<forall>t \<in> set ws. trim t \<noteq> [] \<longrightarrow> (\<exists>ov. createWatermarkPdf e buf (trim t) opts = Inr ov)"
    by simp
  show ?case
  proof (cases "trim w = []")
    case True
    with Cons.IH [OF rest, of acc st] show ?thesis by (simp add: expected_paths_def)
  next
    case False
    with Cons.prems obtain ov where "createWatermarkPdf e buf (trim w) opts = Inr ov"
      by auto
    from applyWatermark_ok [OF this assms]
    obtain st1 where "applyWatermark e buf (trim w) (outputPath dir (trim w)) opts st =
        (Inr (outputPath dir (trim w)), st1)"
      by blast
    with Cons.IH [OF rest, of "acc @ [outputPath dir (trim w)]" st1] False show ?thesis
      by (simp add: Let_def expected_paths_def)
  qed
qed

lemma process_loop_state:
  "process_loop e buf dir opts ws acc st = (r, st') \<Longrightarrow>
     dirs st' = dirs st \<and> timers st' = timers st \<and> dom (files st) \<subseteq> dom (files st')"
proof (induction ws arbitrary: acc st)
  case Nil
  then show ?case by simp
next
  case (Cons w ws)
  show ?case
  proof (cases "trim w = []")
    case True
    with Cons show ?thesis by simp
  next
    case False
    obtain r1 st1 where a: "applyWatermark e buf (trim w) (outputPath dir (trim w)) opts st = (r1, st1)"
      by (cases "applyWatermark e buf (trim w) (outputPath dir (trim w)) opts st")
    note s1 = applyWatermark_cases [OF a]
    show ?thesis
    proof (cases r1)
      case (Inl err)
      with Cons.prems False a s1 show ?thesis
        by (auto simp: Let_def outputPath_def)
    next
      case (Inr q)
      with Cons.prems False a
      have "process_loop e buf dir opts ws (acc @ [outputPath dir (trim w)]) st1 = (r, st')"
        by (simp add: Let_def outputPath_def)
      from Cons.IH [OF this]
      have "dirs st' = dirs st1" and "timers st' = timers st1"
        and "dom (files st1) \<subseteq> dom (files st')"
        by simp_all
      moreover from s1 have "dirs st1 = dirs st" and "timers st1 = timers st"
        and "dom (files st) \<subseteq> dom (files st1)"
        by simp_all
      ultimately show ?thesis by (simp add: order_trans [of "dom (files st)" "dom (files st1)"])
    qed
  qed
qed

lemma process_loop_written:
  "process_loop e buf dir opts ws acc st = (Inr ps, st') \<Longrightarrow> set acc \<subseteq> dom (files st) \<Longrightarrow>
     set ps \<subseteq> dom (files st')"
proof (induction ws arbitrary: acc st)
  case Nil
  then show ?case by simp
next
  case (Cons w ws)
  show ?case
  proof (cases "trim w = []")
    case True
    with Cons show ?thesis by simp
  next
    case False
    obtain r1 st1 where a: "applyWatermark e buf (trim w) (outputPath dir (trim w)) opts st = (r1, st1)"
      by (cases "applyWatermark e buf (trim w) (outputPath dir (trim w)) opts st")
    note s1 = applyWatermark_cases [OF a]
    from Cons.prems(1) False a obtain q where q: "r1 = Inr q"
      by (cases r1) (auto simp: Let_def outputPath_def)
    with Cons.prems(1) False a
    have run: "process_loop e buf dir opts ws (acc @ [outputPath dir (trim w)]) st1 = (Inr ps, st')"
      by (simp add: Let_def outputPath_def)
    from s1 Cons.prems(2) have "set acc \<subseteq> dom (files st1)"
      by blast
    moreover from s1 q have "outputPath dir (trim w) \<in> dom (files st1)"
      by auto
    ultimately have "set (acc @ [outputPath dir (trim w)]) \<subseteq> dom (files st1)"
      by simp
    from Cons.IH [OF run this] show ?thesis .
  qed
qed


text \<open>
  In the concrete environment an overlay is built for a short source, options within
  range and a phrase of plain letters.
\<close>

lemma fixture_upper:
  fixes c :: jschar
  assumes "c < 0x80"
  shows "c < 0x100" and "0x61 \<le> c \<Longrightarrow> c - 0x20 < 0x100"
proof -
  from assms show small: "c < 0x100"
    by (simp add: word_less_nat_alt)
  assume "0x61 \<le> c"
  then have "0x20 \<le> c"
    by (simp add: word_le_nat_alt)
  then have "c - 0x20 \<le> c"
    by (rule word_sub_le)
  then show "c - 0x20 < 0x100"
    using small by (rule le_less_trans)
qed

lemma fixture_overlay:
  assumes "load e = load fixture_env" and "toUpperCase e = toUpperCase fixture_env"
    and "draw_rejects e = draw_rejects fixture_env"
    and "list_all (\<lambda>c. c < 0x80) t"
    and "opacity_in_range (case opacity opts of None \<Rightarrow> Fin (1/2) | Some v \<Rightarrow> v)"
  shows "\<exists>ov. createWatermarkPdf e (b # p # ps) t opts = Inr ov"
proof -
  have l: "load e (b # p # ps) = Inr (map (\<lambda>x. \<lparr> width = Fin (of_nat (unat x)),
      height = Fin (2 * of_nat (unat x)) \<rparr>) (p # ps))"
    by (simp add: assms(1) fixture_env_def)
  have "list_all (\<lambda>c. c < 0x100) (toUpperCase e t)"
    using assms(4) by (auto simp: assms(2) fixture_env_def list_all_iff intro: fixture_upper)
  then have "draw_rejects e (expected_text e ref t opts) = None" for ref
    by (simp add: assms(3) fixture_env_def expected_text_def)
  with assms(5) have "drawText e (expected_text e ref t opts) = None" for ref
    by (simp add: drawText_def expected_text_def)
  then show ?thesis
    by (simp add: createWatermarkPdf_parsed [OF l])
qed

lemma plain_phrases:
  "list_all (\<lambda>c. c < 0x80) (js ''For Alice'')" "list_all (\<lambda>c. c < 0x80) (js ''For Bob'')"
  "list_all (\<lambda>c. c < 0x80) (js ''For Carol'')" "list_all (\<lambda>c. c < 0x80) (js ''For Alice.'')"
  "list_all (\<lambda>c. c < 0x80) (js ''For.Alice'')"
  by (simp_all add: js_def)

lemma default_opacity:
  "opacity_in_range (case opacity (parse_options (no_options w)) of None \<Rightarrow> Fin (1/2) | Some v \<Rightarrow> v)"
  by (simp add: parse_options_def no_options_def parse_absent or_default_NaN opacity_in_range_def)


text \<open>
  C10 as stated names ``For Alice'' and ``For.Alice'' as a pair with one file name. They
  have two: the full stop is deleted, not turned into whitespace, so the second phrase
  becomes ForAlice.pdf, and the orchestrator returns two different paths.
\<close>

theorem C10_example_differs:
  "sanitizedName (js ''For Alice'') = js ''For_Alice'' \<and>
   sanitizedName (js ''For.Alice'') = js ''ForAlice'' \<and>
   fst (processMultipleWatermarks fixture_env [37, 100] [js ''For Alice'', js ''For.Alice'']
      (js ''output/s1'') (parse_options (no_options Absent)) fixture_world) =
     Inr [js ''output/s1/For_Alice.pdf'', js ''output/s1/ForAlice.pdf'']"
proof -
  have t: "trim (js ''For Alice'') = js ''For Alice''" "trim (js ''For.Alice'') = js ''For.Alice''"
    by (simp_all add: name_defs)
  have o: "\<forall>t \<in> set [js ''For Alice'', js ''For.Alice'']. trim t \<noteq> [] \<longrightarrow>
      (\<exists>ov. createWatermarkPdf fixture_env [37, 100] (trim t)
         (parse_options (no_options Absent)) = Inr ov)"
    using fixture_overlay [where e = fixture_env and b = 37 and p = 100 and ps = "[]",
        OF refl refl refl plain_phrases(1) default_opacity [of Absent]]
      fixture_overlay [where e = fixture_env and b = 37 and p = 100 and ps = "[]",
        OF refl refl refl plain_phrases(5) default_opacity [of Absent]]
    by (simp add: t)
  have s: "\<forall>n ov. \<exists>r. submit fixture_env n [37, 100] ov = Inr r"
    by (simp add: fixture_env_def)
  have "\<exists>st'. process_loop fixture_env [37, 100] (js ''output/s1'') (parse_options (no_options Absent))
      [js ''For Alice'', js ''For.Alice''] []
      (if js ''output/s1'' \<in> dirs fixture_world then fixture_world
       else mkdirSync (js ''output/s1'') fixture_world) =
      (Inr ([] @ expected_paths (js ''output/s1'') [js ''For Alice'', js ''For.Alice'']), st')"
    by (rule process_loop_ok [OF s o])
  moreover have "expected_paths (js ''output/s1'') [js ''For Alice'', js ''For.Alice''] =
     [js ''output/s1/For_Alice.pdf'', js ''output/s1/ForAlice.pdf'']"
    by (simp add: expected_paths_def name_defs)
  ultimately show ?thesis
    by (auto simp: processMultipleWatermarks_def) (simp_all add: name_defs)
qed

text \<open>
  C10, amended: two phrases with the same sanitized name (``For Alice'' and
  ``For Alice.'' are such a pair) go to the same output path. The result of the later
  phrase replaces that of the earlier one, and the returned list holds the path twice.
\<close>

theorem C10_same_name_overwrites:
  assumes "trim t1 \<noteq> []" and "trim t2 \<noteq> []"
    and "sanitizedName (trim t1) = sanitizedName (trim t2)"
    and "createWatermarkPdf e buf (trim t1) opts = Inr ov1"
    and "createWatermarkPdf e buf (trim t2) opts = Inr ov2"
    and "submit e (jobs st) buf ov1 = Inr r1"
    and "submit e (Suc (jobs st)) buf ov2 = Inr r2"
  shows "\<exists>st'. processMultipleWatermarks e buf [t1, t2] dir opts st =
      (Inr [outputPath dir (trim t1), outputPath dir (trim t1)], st') \<and>
    outputPath dir (trim t2) = outputPath dir (trim t1) \<and>
    files st' (outputPath dir (trim t1)) = Some (Document r2)"
  using assms
  by (simp add: processMultipleWatermarks_def applyWatermark_def Let_def outputPath_def
      mkdirSync_def)

theorem C10_same_name_overwrites_witness:
  "js ''For Alice'' \<noteq> js ''For Alice.'' \<and>
   sanitizedName (js ''For Alice'') = sanitizedName (js ''For Alice.'') \<and>
   (\<exists>st'. processMultipleWatermarks fixture_env [37, 100] [js ''For Alice'', js ''For Alice.'']
      (js ''output/s1'') (parse_options (no_options Absent)) fixture_world =
       (Inr [js ''output/s1/For_Alice.pdf'', js ''output/s1/For_Alice.pdf''], st') \<and>
     files st' (js ''output/s1/For_Alice.pdf'') = Some (Document [37, 100, 1]))"
proof -
  have t: "trim (js ''For Alice'') = js ''For Alice''" "trim (js ''For Alice.'') = js ''For Alice.''"
    by (simp_all add: name_defs)
  have n: "sanitizedName (js ''For Alice'') = js ''For_Alice''"
    "sanitizedName (js ''For Alice.'') = js ''For_Alice''"
    by (simp_all add: name_defs)
  have p: "outputPath (js ''output/s1'') (js ''For Alice'') = js ''output/s1/For_Alice.pdf''"
    by (simp add: name_defs)
  have k: "trim (js ''For Alice'') \<noteq> []" "trim (js ''For Alice.'') \<noteq> []"
    "sanitizedName (trim (js ''For Alice'')) = sanitizedName (trim (js ''For Alice.''))"
    unfolding t n by (simp_all add: js_def)
  from fixture_overlay [where e = fixture_env and b = 37 and p = 100 and ps = "[]",
        OF refl refl refl plain_phrases(1) default_opacity [of Absent]]
    fixture_overlay [where e = fixture_env and b = 37 and p = 100 and ps = "[]",
        OF refl refl refl plain_phrases(4) default_opacity [of Absent]]
  obtain ov1 ov2 where
    o: "createWatermarkPdf fixture_env [37, 100] (trim (js ''For Alice''))
          (parse_options (no_options Absent)) = Inr ov1"
      "createWatermarkPdf fixture_env [37, 100] (trim (js ''For Alice.''))
          (parse_options (no_options Absent)) = Inr ov2"
    unfolding t by blast
  have s: "submit fixture_env (jobs fixture_world) [37, 100] ov1 = Inr [37, 100, 0]"
    "submit fixture_env (Suc (jobs fixture_world)) [37, 100] ov2 = Inr [37, 100, 1]"
    by (simp_all add: fixture_env_def fixture_world_def)
  have d: "js ''For Alice'' \<noteq> js ''For Alice.''"
    by (simp add: js_def)
  from C10_same_name_overwrites [OF k o s, of "js ''output/s1''"]
  show ?thesis
    unfolding t n p using d n by auto
qed

section \<open>Properties of the endpoint\<close>

lemma dropWhile_fixed: "xs = [] \<or> \<not> P (hd xs) \<Longrightarrow> dropWhile P xs = xs"
  by (cases xs) auto

lemma trim_ends:
  "trim s = [] \<or> (\<not> isWhiteSpace (hd (trim s)) \<and> \<not> isWhiteSpace (last (trim s)))"
proof (cases "trim s = []")
  case True
  then show ?thesis by simp
next
  case False
  define a where "a = dropWhile isWhiteSpace s"
  define b where "b = dropWhile isWhiteSpace (rev a)"
  have t: "trim s = rev b"
    by (simp add: trim_def a_def b_def)
  with False have bne: "b \<noteq> []" by simp
  then have "\<not> isWhiteSpace (hd b)"
    unfolding b_def by (rule hd_dropWhile)
  with bne have last_ok: "\<not> isWhiteSpace (last (trim s))"
    by (simp add: t last_rev)
  have "rev a = takeWhile isWhiteSpace (rev a) @ b"
    by (simp add: b_def)
  then have "a = rev b @ rev (takeWhile isWhiteSpace (rev a))"
    by (metis rev_append rev_rev_ident)
  with bne have "hd a = hd (rev b)" and "a \<noteq> []"
    by (metis hd_append2 rev_is_Nil_conv, metis Nil_is_append_conv rev_is_Nil_conv)
  moreover from \<open>a \<noteq> []\<close> have "\<not> isWhiteSpace (hd a)"
    unfolding a_def by (rule hd_dropWhile)
  ultimately have "\<not> isWhiteSpace (hd (trim s))"
    by (simp add: t)
  with last_ok show ?thesis by simp
qed

lemma trim_trim: "trim (trim s) = trim s"
proof (cases "trim s = []")
  case True
  then show ?thesis by (simp add: trim_def [of "[]"])
next
  case False
  with trim_ends [of s] have h: "\<not> isWhiteSpace (hd (trim s))"
    and l: "\<not> isWhiteSpace (last (trim s))"
    by simp_all
  from h have "dropWhile isWhiteSpace (trim s) = trim s"
    by (simp add: dropWhile_fixed)
  moreover from l False have "dropWhile isWhiteSpace (rev (trim s)) = rev (trim s)"
    by (simp add: dropWhile_fixed hd_rev)
  ultimately show ?thesis
    by (simp add: trim_def [of "trim s"])
qed

lemma watermarkTexts_trimmed:
  "t \<in> set (watermarkTexts_of w) \<Longrightarrow> trim t = t \<and> t \<noteq> []"
  by (auto simp: watermarkTexts_of_def trim_trim)

lemma expected_paths_trimmed:
  "expected_paths dir (watermarkTexts_of w) = map (outputPath dir) (watermarkTexts_of w)"
proof -
  have "filter (\<lambda>t. t \<noteq> []) (map trim (watermarkTexts_of w)) = watermarkTexts_of w"
    using watermarkTexts_trimmed [of _ w]
    by (induction "watermarkTexts_of w" arbitrary: w) (auto simp: filter_id_conv map_idI)
  then show ?thesis by (simp add: expected_paths_def)
qed

lemma collapse_ws_set: "set (collapse_ws xs) \<subseteq> insert 0x5F {c \<in> set xs. \<not> isWhiteSpace c}"
proof (induction xs rule: collapse_ws.induct)
  case 1
  show ?case by simp
next
  case (2 c cs)
  show ?case
  proof (cases "isWhiteSpace c")
    case True
    with 2 have "set (collapse_ws (dropWhile isWhiteSpace cs))
        \<subseteq> insert 0x5F {c \<in> set (dropWhile isWhiteSpace cs). \<not> isWhiteSpace c}"
      by simp
    moreover have "set (dropWhile isWhiteSpace cs) \<subseteq> set cs"
      by (auto dest: set_dropWhileD)
    ultimately show ?thesis using True by auto
  next
    case False
    with 2 show ?thesis by auto
  qed
qed

lemma sanitizedName_chars: "c \<in> set (sanitizedName s) \<Longrightarrow> isAlnum c \<or> c = 0x5F"
  using collapse_ws_set [of "strip_special s"]
  by (auto simp: sanitizedName_def strip_special_def)

lemma basename_outputPath: "basename (outputPath dir t) = sanitizedName t @ js ''.pdf''"
proof -
  have "0x2F \<notin> set (sanitizedName t)"
    using sanitizedName_chars [of "0x2F" t] by (auto simp: isAlnum_def)
  moreover have "0x2F \<notin> set (js ''.pdf'')"
    by (simp add: js_def)
  ultimately have "\<forall>c \<in> set (sanitizedName t @ js ''.pdf''). c \<noteq> 0x2F"
    by auto
  then have "takeWhile (\<lambda>c. c \<noteq> 0x2F) (rev (sanitizedName t @ js ''.pdf'') @ 0x2F # rev dir) =
      rev (sanitizedName t @ js ''.pdf'')"
    by (subst takeWhile_append2) auto
  then show ?thesis
    by (simp add: basename_def outputPath_def path_join_def)
qed

lemma processMultiple_paths:
  assumes "processMultipleWatermarks e buf (watermarkTexts_of w) dir opts st = (Inr ps, st1)"
  shows "ps = map (outputPath dir) (watermarkTexts_of w)" and "set ps \<subseteq> dom (files st1)"
proof -
  from assms have run: "process_loop e buf dir opts (watermarkTexts_of w) []
      (if dir \<in> dirs st then st else mkdirSync dir st) = (Inr ps, st1)"
    by (simp add: processMultipleWatermarks_def)
  from process_loop_paths [OF run] show "ps = map (outputPath dir) (watermarkTexts_of w)"
    by (simp add: expected_paths_trimmed)
  from process_loop_written [OF run] show "set ps \<subseteq> dom (files st1)"
    by simp
qed

lemma processMultiple_state:
  assumes "processMultipleWatermarks e buf ws dir opts st = (r, st1)"
  shows "dir \<in> dirs st1" and "timers st1 = timers st"
proof -
  from assms have run: "process_loop e buf dir opts ws []
      (if dir \<in> dirs st then st else mkdirSync dir st) = (r, st1)"
    by (simp add: processMultipleWatermarks_def)
  from process_loop_state [OF run] show "dir \<in> dirs st1" and "timers st1 = timers st"
    by (auto simp: mkdirSync_def split: if_splits)
qed

lemma route_accepts:
  assumes "upload_single r = Inr (Some f)" and "watermarks (req_body r) = Str w"
    and "watermarkTexts_of w \<noteq> []"
  shows "post_watermark e sid r st =
    (case processMultipleWatermarks e (buffer f) (watermarkTexts_of w)
            (path_join (outputDir e) sid) (parse_options (req_body r)) st of
       (Inl err, st1) \<Rightarrow>
         (json_response 500 ''Failed to process watermark request'' (Some (message err)),
          cleanup_on_error (path_join (outputDir e) sid) st1)
     | (Inr outputPaths, st1) \<Rightarrow>
         if length outputPaths = 0 then (json_response 500 ''No files were generated'' None, st1)
         else if length outputPaths = 1 then
           (\<lparr> status = 200, content_type = ''application/pdf'',
              disposition = Some (basename (hd outputPaths)),
              payload = Stream (files st1 (hd outputPaths)) \<rparr>,
            st1\<lparr>timers := timers st1 @ [[path_join (outputDir e) sid]]\<rparr>)
         else send_zip e (path_join (outputDir e) sid) outputPaths st1)"
proof -
  from assms(3) have "w \<noteq> []"
    by (auto simp: watermarkTexts_of_def trim_def)
  with assms show ?thesis
    by (simp add: post_watermark_def watermark_route_def Let_def)
qed

lemma processMultiple_ok:
  assumes "\<forall>t \<in> set ws. trim t \<noteq> [] \<longrightarrow> (\<exists>ov. createWatermarkPdf e buf (trim t) opts = Inr ov)"
    and "\<forall>n ov. \<exists>r. submit e n buf ov = Inr r"
  shows "\<exists>st1. processMultipleWatermarks e buf ws dir opts st = (Inr (expected_paths dir ws), st1)"
  using process_loop_ok [OF assms(2,1), of dir "[]"]
  by (simp add: processMultipleWatermarks_def)

lemma append_order_mset: "mset (append_order e ps) = mset ps"
proof -
  let ?sorted = "sort_key (\<lambda>(i, p). stat_time e i) (enumerate 0 ps)"
  have "mset ?sorted = mset (enumerate 0 ps)"
    by simp
  then have "mset (map snd ?sorted) = mset (map snd (enumerate 0 ps))"
    by (metis mset_map)
  then show ?thesis
    by (simp only: append_order_def map_snd_enumerate)
qed

lemma append_order_two:
  "append_order e [p, q] = (if stat_time e 0 \<le> stat_time e 1 then [p, q] else [q, p])"
  by (simp add: append_order_def)

lemmas fixture_defs = fixture_env_def fixture_world_def fixture_request_def no_options_def

lemma fixture_upload:
  "upload_single (fixture_request ''application/pdf'' w) =
     Inr (Some \<lparr> mimetype = ''application/pdf'', buffer = [37, 100, 200, 150, 90] \<rparr>)"
  "watermarks (req_body (fixture_request m w)) = Str (js w)"
  by (simp_all add: upload_single_def fixture_defs)

lemma fixture_runs:
  assumes "load e = load fixture_env" and "toUpperCase e = toUpperCase fixture_env"
    and "draw_rejects e = draw_rejects fixture_env" and "submit e = submit fixture_env"
    and "\<forall>t \<in> set ws. list_all (\<lambda>c. c < 0x80) (trim t)"
  shows "\<exists>st1. processMultipleWatermarks e [37, 100, 200, 150, 90] ws dir
      (parse_options (no_options w)) st = (Inr (expected_paths dir ws), st1)"
proof (rule processMultiple_ok)
  show "\<forall>t \<in> set ws. trim t \<noteq> [] \<longrightarrow>
      (\<exists>ov. createWatermarkPdf e [37, 100, 200, 150, 90] (trim t)
         (parse_options (no_options w)) = Inr ov)"
    using assms(5) fixture_overlay [OF assms(1-3) _ default_opacity]
    by blast
  show "\<forall>n ov. \<exists>r. submit e n [37, 100, 200, 150, 90] ov = Inr r"
    by (simp add: assms(4) fixture_env_def)
qed

lemmas text_defs = watermarkTexts_of_def trim_def js_def isWhiteSpace_def

lemma fixture_texts:
  "watermarkTexts_of (js ''For Alice'') = [js ''For Alice'']"
  "watermarkTexts_of (js ''For Alice,For Bob'') = [js ''For Alice'', js ''For Bob'']"
  "watermarkTexts_of (js ''For Alice, For Bob ,For Carol'') =
     [js ''For Alice'', js ''For Bob'', js ''For Carol'']"
  by (simp_all add: text_defs)

lemma fixture_plain:
  "\<forall>t \<in> set [js ''For Alice'']. list_all (\<lambda>c. c < 0x80) (trim t)"
  "\<forall>t \<in> set [js ''For Alice'', js ''For Bob'']. list_all (\<lambda>c. c < 0x80) (trim t)"
  "\<forall>t \<in> set [js ''For Alice'', js ''For Bob'', js ''For Carol'']. list_all (\<lambda>c. c < 0x80) (trim t)"
  by (simp_all add: trim_def js_def isWhiteSpace_def)

lemma fixture_names:
  "basename (js ''output/s1/For_Alice.pdf'') = js ''For_Alice.pdf''"
  "basename (js ''output/s1/For_Bob.pdf'') = js ''For_Bob.pdf''"
  "basename (js ''output/s1/For_Carol.pdf'') = js ''For_Carol.pdf''"
  "expected_paths (js ''output/s1'') [js ''For Alice''] = [js ''output/s1/For_Alice.pdf'']"
  "expected_paths (js ''output/s1'') [js ''For Alice'', js ''For Bob''] =
     [js ''output/s1/For_Alice.pdf'', js ''output/s1/For_Bob.pdf'']"
  "expected_paths (js ''output/s1'') [js ''For Alice'', js ''For Bob'', js ''For Carol''] =
     [js ''output/s1/For_Alice.pdf'', js ''output/s1/For_Bob.pdf'', js ''output/s1/For_Carol.pdf'']"
  by (simp_all add: basename_def expected_paths_def name_defs)

text \<open>
  C4: for a request that passes validation and for which the orchestrator returns its
  paths, there is one path per phrase. If that is one path, the response is that file,
  with status 200, content type application/pdf and the basename of the path as the
  file name of the Content-Disposition. If there are two or more and the archive writer
  succeeds, the response is a ZIP archive with as many entries as there are phrases:
  one entry for each file, named by the basename of the file and holding its content.
\<close>

theorem C4_packaging:
  assumes "upload_single r = Inr (Some f)" and "watermarks (req_body r) = Str w"
    and "watermarkTexts_of w \<noteq> []"
    and "processMultipleWatermarks e (buffer f) (watermarkTexts_of w)
           (path_join (outputDir e) sid) (parse_options (req_body r)) st = (Inr outputPaths, st1)"
  shows "length outputPaths = length (watermarkTexts_of w) \<and>
    (length outputPaths = 1 \<longrightarrow>
       status (fst (post_watermark e sid r st)) = 200 \<and>
       content_type (fst (post_watermark e sid r st)) = ''application/pdf'' \<and>
       disposition (fst (post_watermark e sid r st)) = Some (basename (hd outputPaths)) \<and>
       payload (fst (post_watermark e sid r st)) = Stream (files st1 (hd outputPaths)) \<and>
       files st1 (hd outputPaths) \<noteq> None) \<and>
    (2 \<le> length outputPaths \<and> archive e = ArchiveOk \<longrightarrow>
       status (fst (post_watermark e sid r st)) = 200 \<and>
       content_type (fst (post_watermark e sid r st)) = ''application/zip'' \<and>
       (\<exists>entries. payload (fst (post_watermark e sid r st)) = Stream (Some (Archive entries)) \<and>
          length entries = length (watermarkTexts_of w) \<and>
          mset entries = mset (map (\<lambda>p. (basename p, files st1 p)) outputPaths) \<and>
          None \<notin> set (map snd entries)))"
proof -
  note paths = processMultiple_paths [OF assms(4)]
  note resp = route_accepts [OF assms(1-3), of e sid st]
  let ?entries = "map (\<lambda>p. (basename p, files st1 p)) (append_order e outputPaths)"
  have len: "length outputPaths = length (watermarkTexts_of w)"
    by (simp add: paths(1))
  have written: "\<forall>p \<in> set outputPaths. files st1 p \<noteq> None"
    using paths(2) by (auto simp: domIff)
  have single: "length outputPaths = 1 \<Longrightarrow> files st1 (hd outputPaths) \<noteq> None"
    using written by (cases outputPaths) auto
  have m: "mset ?entries = mset (map (\<lambda>p. (basename p, files st1 p)) outputPaths)"
    by (simp add: append_order_mset)
  then have l: "length ?entries = length (watermarkTexts_of w)"
    using len arg_cong [OF append_order_mset [of e outputPaths], of size] by simp
  have "set (append_order e outputPaths) = set outputPaths"
    using arg_cong [OF append_order_mset [of e outputPaths], of set_mset] by simp
  with written have none: "None \<notin> set (map snd ?entries)"
    by auto
  have zip: "2 \<le> length outputPaths \<Longrightarrow> archive e = ArchiveOk \<Longrightarrow>
      fst (post_watermark e sid r st) =
        \<lparr> status = 200, content_type = ''application/zip'', disposition = Some (zipFileName e),
          payload = Stream (Some (Archive ?entries)) \<rparr>"
    by (auto simp: resp assms(4) send_zip_def Let_def)
  show ?thesis
  proof (intro conjI impI)
    show "length outputPaths = length (watermarkTexts_of w)"
      by (rule len)
  next
    assume one: "length outputPaths = 1"
    then show "status (fst (post_watermark e sid r st)) = 200"
      and "content_type (fst (post_watermark e sid r st)) = ''application/pdf''"
      and "disposition (fst (post_watermark e sid r st)) = Some (basename (hd outputPaths))"
      and "payload (fst (post_watermark e sid r st)) = Stream (files st1 (hd outputPaths))"
      by (simp_all add: resp assms(4))
    from one show "files st1 (hd outputPaths) \<noteq> None"
      by (rule single)
  next
    assume a: "2 \<le> length outputPaths \<and> archive e = ArchiveOk"
    then show "status (fst (post_watermark e sid r st)) = 200"
      and "content_type (fst (post_watermark e sid r st)) = ''application/zip''"
      by (simp_all add: zip)
    from a have "payload (fst (post_watermark e sid r st)) = Stream (Some (Archive ?entries))"
      by (simp add: zip)
    with l m none show "\<exists>entries.
        payload (fst (post_watermark e sid r st)) = Stream (Some (Archive entries)) \<and>
        length entries = length (watermarkTexts_of w) \<and>
        mset entries = mset (map (\<lambda>p. (basename p, files st1 p)) outputPaths) \<and>
        None \<notin> set (map snd entries)"
      by blast
  qed
qed

theorem C4_packaging_witness:
  "disposition (fst (post_watermark fixture_env (js ''s1'')
      (fixture_request ''application/pdf'' ''For Alice'') fixture_world)) = Some (js ''For_Alice.pdf'') \<and>
   content_type (fst (post_watermark fixture_env (js ''s1'')
      (fixture_request ''application/pdf'' ''For Alice'') fixture_world)) = ''application/pdf'' \<and>
   content_type (fst (post_watermark fixture_env (js ''s1'')
      (fixture_request ''application/pdf'' ''For Alice, For Bob ,For Carol'') fixture_world)) =
      ''application/zip'' \<and>
   (\<exists>entries. payload (fst (post_watermark fixture_env (js ''s1'')
      (fixture_request ''application/pdf'' ''For Alice, For Bob ,For Carol'') fixture_world)) =
        Stream (Some (Archive entries)) \<and>
      length entries = 3 \<and>
      mset (map fst entries) = {#js ''For_Alice.pdf'', js ''For_Bob.pdf'', js ''For_Carol.pdf''#})"
proof -
  let ?f = "\<lparr> mimetype = ''application/pdf'', buffer = [37, 100, 200, 150, 90] \<rparr>"
  let ?r1 = "fixture_request ''application/pdf'' ''For Alice''"
  let ?r3 = "fixture_request ''application/pdf'' ''For Alice, For Bob ,For Carol''"
  have e: "archive fixture_env = ArchiveOk"
    by (simp add: fixture_env_def)
  have d: "path_join (outputDir fixture_env) (js ''s1'') = js ''output/s1''"
    by (simp add: fixture_env_def path_join_def js_def)
  have b: "req_body (fixture_request m w) = no_options (Str (js w))" "buffer ?f = [37, 100, 200, 150, 90]"
    for m w
    by (simp_all add: fixture_request_def)
  from fixture_runs [OF refl refl refl refl fixture_plain(1), of "js ''output/s1''"
      "Str (js ''For Alice'')" fixture_world]
  obtain st1 where
    r1: "processMultipleWatermarks fixture_env (buffer ?f) (watermarkTexts_of (js ''For Alice''))
        (path_join (outputDir fixture_env) (js ''s1'')) (parse_options (req_body ?r1)) fixture_world =
        (Inr [js ''output/s1/For_Alice.pdf''], st1)"
    unfolding fixture_texts d b fixture_names by blast
  from fixture_runs [OF refl refl refl refl fixture_plain(3), of "js ''output/s1''"
      "Str (js ''For Alice, For Bob ,For Carol'')" fixture_world]
  obtain st3 where
    r3: "processMultipleWatermarks fixture_env (buffer ?f)
        (watermarkTexts_of (js ''For Alice, For Bob ,For Carol''))
        (path_join (outputDir fixture_env) (js ''s1'')) (parse_options (req_body ?r3)) fixture_world =
        (Inr [js ''output/s1/For_Alice.pdf'', js ''output/s1/For_Bob.pdf'',
              js ''output/s1/For_Carol.pdf''], st3)"
    unfolding fixture_texts d b fixture_names by blast
  have n1: "watermarkTexts_of (js ''For Alice'') \<noteq> []"
    by (simp add: fixture_texts)
  have n3: "watermarkTexts_of (js ''For Alice, For Bob ,For Carol'') \<noteq> []"
    by (simp add: fixture_texts)
  from C4_packaging [OF fixture_upload n1 r1]
  have p1: "disposition (fst (post_watermark fixture_env (js ''s1'') ?r1 fixture_world)) =
      Some (js ''For_Alice.pdf'')"
    "content_type (fst (post_watermark fixture_env (js ''s1'') ?r1 fixture_world)) = ''application/pdf''"
    by (simp_all add: fixture_names)
  from C4_packaging [OF fixture_upload n3 r3] e
  obtain entries where
    p3: "content_type (fst (post_watermark fixture_env (js ''s1'') ?r3 fixture_world)) =
      ''application/zip''"
    and z: "payload (fst (post_watermark fixture_env (js ''s1'') ?r3 fixture_world)) =
        Stream (Some (Archive entries))"
    and l: "length entries = length (watermarkTexts_of (js ''For Alice, For Bob ,For Carol''))"
    and m: "mset entries = mset (map (\<lambda>p. (basename p, files st3 p))
        [js ''output/s1/For_Alice.pdf'', js ''output/s1/For_Bob.pdf'', js ''output/s1/For_Carol.pdf''])"
    by auto
  from arg_cong [OF m, of "image_mset fst"]
  have "mset (map fst entries) =
      {#js ''For_Alice.pdf'', js ''For_Bob.pdf'', js ''For_Carol.pdf''#}"
    by (simp add: fixture_names)
  moreover from l have "length entries = 3"
    by (simp add: fixture_texts)
  ultimately show ?thesis
    using p1 p3 z by blast
qed

lemma alice_bob_archive:
  assumes "upload_single r = Inr (Some f)" and "watermarks (req_body r) = Str w"
    and "watermarkTexts_of w = [js ''For Alice'', js ''For Bob'']"
    and "createWatermarkPdf e (buffer f) (js ''For Alice'') (parse_options (req_body r)) = Inr ov1"
    and "createWatermarkPdf e (buffer f) (js ''For Bob'') (parse_options (req_body r)) = Inr ov2"
    and "\<forall>n ov. \<exists>res. submit e n (buffer f) ov = Inr res"
    and "archive e = ArchiveOk"
  shows "\<exists>c1 c2. payload (fst (post_watermark e sid r st)) =
    Stream (Some (Archive
      (if stat_time e 0 \<le> stat_time e 1
       then [(js ''For_Alice.pdf'', Some c1), (js ''For_Bob.pdf'', Some c2)]
       else [(js ''For_Bob.pdf'', Some c2), (js ''For_Alice.pdf'', Some c1)])))"
proof -
  let ?dir = "path_join (outputDir e) sid"
  have t: "trim (js ''For Alice'') = js ''For Alice''" "trim (js ''For Bob'') = js ''For Bob''"
    by (simp_all add: name_defs)
  have "\<forall>t \<in> set (watermarkTexts_of w). trim t \<noteq> [] \<longrightarrow>
      (\<exists>ov. createWatermarkPdf e (buffer f) (trim t) (parse_options (req_body r)) = Inr ov)"
    using assms(4,5) by (simp add: assms(3) t)
  from processMultiple_ok [OF this assms(6)] obtain st1 where
    run: "processMultipleWatermarks e (buffer f) (watermarkTexts_of w) ?dir
       (parse_options (req_body r)) st = (Inr (expected_paths ?dir (watermarkTexts_of w)), st1)"
    by blast
  have ps: "expected_paths ?dir (watermarkTexts_of w) =
      [outputPath ?dir (js ''For Alice''), outputPath ?dir (js ''For Bob'')]"
    by (simp add: expected_paths_trimmed) (simp add: assms(3))
  have names: "sanitizedName (js ''For Alice'') @ js ''.pdf'' = js ''For_Alice.pdf''"
    "sanitizedName (js ''For Bob'') @ js ''.pdf'' = js ''For_Bob.pdf''"
    by (simp_all add: name_defs)
  from processMultiple_paths(2) [OF run] obtain c1 c2 where
    "files st1 (outputPath ?dir (js ''For Alice'')) = Some c1"
    "files st1 (outputPath ?dir (js ''For Bob'')) = Some c2"
    unfolding ps by auto
  moreover have "watermarkTexts_of w \<noteq> []"
    by (simp add: assms(3))
  ultimately show ?thesis
    using assms(7) names
    by (simp add: route_accepts [OF assms(1,2)] run ps send_zip_def basename_outputPath Let_def
        append_order_two)
qed

text \<open>
  C5 as stated fixes the order of the two entries. The archive writer appends a file
  when its \<open>lstat\<close> returns, and when that of the first file returns after that of the
  second, For_Bob.pdf is the first entry of the archive.
\<close>

theorem C5_order_not_fixed:
  "entry_names (fst (post_watermark late_first_env (js ''s1'')
      (fixture_request ''application/pdf'' ''For Alice,For Bob'') fixture_world)) =
     [js ''For_Bob.pdf'', js ''For_Alice.pdf'']"
proof -
  have e: "load late_first_env = load fixture_env" "toUpperCase late_first_env = toUpperCase fixture_env"
    "draw_rejects late_first_env = draw_rejects fixture_env"
    "\<forall>n ov. \<exists>res. submit late_first_env n [37, 100, 200, 150, 90] ov = Inr res"
    "archive late_first_env = ArchiveOk"
    "\<not> stat_time late_first_env 0 \<le> stat_time late_first_env 1"
    by (simp_all add: late_first_env_def fixture_env_def)
  have b: "buffer \<lparr> mimetype = ''application/pdf'', buffer = [37, 100, 200, 150, 90] \<rparr> =
      [37, 100, 200, 150, 90]"
    "req_body (fixture_request ''application/pdf'' ''For Alice,For Bob'') =
      no_options (Str (js ''For Alice,For Bob''))"
    by (simp_all add: fixture_request_def)
  from fixture_overlay [OF e(1-3) plain_phrases(1) default_opacity]
    fixture_overlay [OF e(1-3) plain_phrases(2) default_opacity]
  obtain ov1 ov2 where
    o: "createWatermarkPdf late_first_env
       (buffer \<lparr> mimetype = ''application/pdf'', buffer = [37, 100, 200, 150, 90] \<rparr>)
       (js ''For Alice'')
       (parse_options (req_body (fixture_request ''application/pdf'' ''For Alice,For Bob''))) = Inr ov1"
    "createWatermarkPdf late_first_env
       (buffer \<lparr> mimetype = ''application/pdf'', buffer = [37, 100, 200, 150, 90] \<rparr>)
       (js ''For Bob'')
       (parse_options (req_body (fixture_request ''application/pdf'' ''For Alice,For Bob''))) = Inr ov2"
    unfolding b by blast
  have s: "\<forall>n ov. \<exists>res. submit late_first_env n
      (buffer \<lparr> mimetype = ''application/pdf'', buffer = [37, 100, 200, 150, 90] \<rparr>) ov = Inr res"
    by (simp add: late_first_env_def fixture_env_def)
  from alice_bob_archive [OF fixture_upload fixture_texts(2) o s e(5),
      of "js ''s1''" fixture_world]
  show ?thesis
    using e(6) by (auto simp: entry_names_def)
qed

text \<open>
  C5, amended: a request whose phrases are ``For Alice'' and ``For Bob'' is answered,
  when both overlays can be built, the remote service answers both jobs and the archive
  writer succeeds, with an archive of exactly two entries, For_Alice.pdf and
  For_Bob.pdf, each with the content of its file. Their order is that in which the
  \<open>lstat\<close> calls of the archive writer return: For_Alice.pdf is first when the call for
  the first file returns no later than the call for the second, and For_Bob.pdf is
  first otherwise.
\<close>

theorem C5_alice_bob:
  assumes "upload_single r = Inr (Some f)" and "watermarks (req_body r) = Str w"
    and "watermarkTexts_of w = [js ''For Alice'', js ''For Bob'']"
    and "createWatermarkPdf e (buffer f) (js ''For Alice'') (parse_options (req_body r)) = Inr ov1"
    and "createWatermarkPdf e (buffer f) (js ''For Bob'') (parse_options (req_body r)) = Inr ov2"
    and "\<forall>n ov. \<exists>res. submit e n (buffer f) ov = Inr res"
    and "archive e = ArchiveOk"
  shows "\<exists>c1 c2. payload (fst (post_watermark e sid r st)) =
    Stream (Some (Archive
      (if stat_time e 0 \<le> stat_time e 1
       then [(js ''For_Alice.pdf'', Some c1), (js ''For_Bob.pdf'', Some c2)]
       else [(js ''For_Bob.pdf'', Some c2), (js ''For_Alice.pdf'', Some c1)])))"
  using assms by (rule alice_bob_archive)

theorem C5_alice_bob_witness:
  "watermarkTexts_of (js ''For Alice,For Bob'') = [js ''For Alice'', js ''For Bob''] \<and>
   (\<exists>c1 c2. payload (fst (post_watermark fixture_env (js ''s1'')
      (fixture_request ''application/pdf'' ''For Alice,For Bob'') fixture_world)) =
    Stream (Some (Archive [(js ''For_Alice.pdf'', Some c1), (js ''For_Bob.pdf'', Some c2)])))"
proof -
  have e: "\<forall>n ov. \<exists>res. submit fixture_env n [37, 100, 200, 150, 90] ov = Inr res"
    "archive fixture_env = ArchiveOk"
    "stat_time fixture_env 0 \<le> stat_time fixture_env 1"
    by (simp_all add: fixture_env_def)
  have b: "buffer \<lparr> mimetype = ''application/pdf'', buffer = [37, 100, 200, 150, 90] \<rparr> =
      [37, 100, 200, 150, 90]"
    "req_body (fixture_request ''application/pdf'' ''For Alice,For Bob'') =
      no_options (Str (js ''For Alice,For Bob''))"
    by (simp_all add: fixture_request_def)
  from fixture_overlay [OF refl refl refl plain_phrases(1) default_opacity]
    fixture_overlay [OF refl refl refl plain_phrases(2) default_opacity]
  obtain ov1 ov2 where
    o: "createWatermarkPdf fixture_env
       (buffer \<lparr> mimetype = ''application/pdf'', buffer = [37, 100, 200, 150, 90] \<rparr>)
       (js ''For Alice'')
       (parse_options (req_body (fixture_request ''application/pdf'' ''For Alice,For Bob''))) = Inr ov1"
    "createWatermarkPdf fixture_env
       (buffer \<lparr> mimetype = ''application/pdf'', buffer = [37, 100, 200, 150, 90] \<rparr>)
       (js ''For Bob'')
       (parse_options (req_body (fixture_request ''application/pdf'' ''For Alice,For Bob''))) = Inr ov2"
    unfolding b by blast
  have s: "\<forall>n ov. \<exists>res. submit fixture_env n
      (buffer \<lparr> mimetype = ''application/pdf'', buffer = [37, 100, 200, 150, 90] \<rparr>) ov = Inr res"
    by (simp add: fixture_env_def)
  from C5_alice_bob [OF fixture_upload fixture_texts(2) o s e(2),
      of "js ''s1''" fixture_world]
  have "\<exists>c1 c2. payload (fst (post_watermark fixture_env (js ''s1'')
      (fixture_request ''application/pdf'' ''For Alice,For Bob'') fixture_world)) =
    Stream (Some (Archive [(js ''For_Alice.pdf'', Some c1), (js ''For_Bob.pdf'', Some c2)]))"
    using e(3) by simp
  with fixture_texts(2) show ?thesis by blast
qed

lemma applyWatermark_parse_failure:
  "load e buf = Inl m \<Longrightarrow> applyWatermark e buf t p opts st = (Inl (ParseFailure m), st)"
  by (simp add: applyWatermark_def createWatermarkPdf_def)

lemma applyWatermark_overlay_failure:
  "createWatermarkPdf e buf t opts = Inl err \<Longrightarrow> applyWatermark e buf t p opts st = (Inl err, st)"
  by (simp add: applyWatermark_def)

lemma applyWatermark_remote_failure:
  assumes "createWatermarkPdf e buf t opts = Inr ov" and "\<forall>n ov. submit e n buf ov = Inl m"
  shows "\<exists>st'. applyWatermark e buf t p opts st = (Inl (RemoteFailure m), st')"
  using assms by (simp add: applyWatermark_def Let_def)

lemma process_loop_fails:
  assumes "\<forall>t \<in> set ws. trim t \<noteq> [] \<longrightarrow>
      (\<forall>p st. \<exists>st'. applyWatermark e buf (trim t) p opts st = (Inl err, st'))"
    and "\<exists>t \<in> set ws. trim t \<noteq> []"
  shows "\<exists>st'. process_loop e buf dir opts ws acc st = (Inl err, st')"
  using assms
proof (induction ws arbitrary: acc st)
  case Nil
  then show ?case by simp
next
  case (Cons w ws)
  show ?case
  proof (cases "trim w = []")
    case True
    with Cons.prems have "\<exists>t \<in> set ws. trim t \<noteq> []"
      and "\<forall>t \<in> set ws. trim t \<noteq> [] \<longrightarrow>
        (\<forall>p st. \<exists>st'. applyWatermark e buf (trim t) p opts st = (Inl err, st'))"
      by auto
    from Cons.IH [OF this(2,1), of acc st] True show ?thesis by simp
  next
    case False
    with Cons.prems(1)
    obtain st1 where "applyWatermark e buf (trim w) (outputPath dir (trim w)) opts st = (Inl err, st1)"
      by fastforce
    with False show ?thesis by (simp add: Let_def)
  qed
qed

lemma processMultiple_fails:
  assumes "\<forall>t \<in> set (watermarkTexts_of w).
      \<forall>p st. \<exists>st'. applyWatermark e buf t p opts st = (Inl err, st')"
    and "watermarkTexts_of w \<noteq> []"
  shows "\<exists>st1. processMultipleWatermarks e buf (watermarkTexts_of w) dir opts st = (Inl err, st1)"
proof -
  from assms(2) obtain t where "t \<in> set (watermarkTexts_of w)"
    by (cases "watermarkTexts_of w") auto
  with watermarkTexts_trimmed [of t w] have some: "\<exists>t \<in> set (watermarkTexts_of w). trim t \<noteq> []"
    by (intro bexI [of _ t]) simp_all
  have "\<forall>t \<in> set (watermarkTexts_of w). trim t \<noteq> [] \<longrightarrow>
      (\<forall>p st. \<exists>st'. applyWatermark e buf (trim t) p opts st = (Inl err, st'))"
    using assms(1) watermarkTexts_trimmed [of _ w] by simp
  from process_loop_fails [OF this some]
  obtain st1 where "process_loop e buf dir opts (watermarkTexts_of w) []
      (if dir \<in> dirs st then st else mkdirSync dir st) = (Inl err, st1)"
    by blast
  then show ?thesis
    by (simp add: processMultipleWatermarks_def)
qed

lemma cleanup_removes:
  assumes "dir \<in> dirs st1"
  shows "dir \<notin> dirs (cleanup_on_error dir st1)"
    and "inside dir p \<Longrightarrow> files (cleanup_on_error dir st1) p = None"
    and "timers (cleanup_on_error dir st1) = timers st1"
  using assms by (simp_all add: cleanup_on_error_def rmSync_def)

text \<open>
  C8 as stated fails for a packaging failure. When the archive writer reports an error,
  the answer is the one of its \<open>error\<close> listener: status 500 and a body with an error
  text and no details; and unless \<open>finalize()\<close> rejects too, the \<open>catch\<close> block does
  not run and the session directory stays.
\<close>

theorem C8_archive_error_response:
  "fst (post_watermark (fixture_env\<lparr>archive := ArchiveError False\<rparr>) (js ''s1'')
      (fixture_request ''application/pdf'' ''For Alice,For Bob'') fixture_world) =
     \<lparr> status = 500, content_type = ''application/json; charset=utf-8'', disposition = None,
       payload = Json ''Failed to create ZIP archive'' None \<rparr> \<and>
   js ''output/s1'' \<in> dirs (snd (post_watermark (fixture_env\<lparr>archive := ArchiveError False\<rparr>)
      (js ''s1'') (fixture_request ''application/pdf'' ''For Alice,For Bob'') fixture_world))"
proof -
  let ?e = "fixture_env\<lparr>archive := ArchiveError False\<rparr>"
  let ?r = "fixture_request ''application/pdf'' ''For Alice,For Bob''"
  let ?f = "\<lparr> mimetype = ''application/pdf'', buffer = [37, 100, 200, 150, 90] \<rparr>"
  have d: "path_join (outputDir ?e) (js ''s1'') = js ''output/s1''"
    by (simp add: fixture_env_def path_join_def js_def)
  have b: "buffer ?f = [37, 100, 200, 150, 90]"
    "req_body ?r = no_options (Str (js ''For Alice,For Bob''))"
    by (simp_all add: fixture_request_def)
  have e: "load ?e = load fixture_env" "toUpperCase ?e = toUpperCase fixture_env"
    "draw_rejects ?e = draw_rejects fixture_env" "submit ?e = submit fixture_env"
    by simp_all
  from fixture_runs [OF e fixture_plain(2), of "js ''output/s1''" "Str (js ''For Alice,For Bob'')"
      fixture_world]
  obtain st1 where run: "processMultipleWatermarks ?e (buffer ?f)
      (watermarkTexts_of (js ''For Alice,For Bob'')) (path_join (outputDir ?e) (js ''s1''))
      (parse_options (req_body ?r)) fixture_world =
      (Inr [js ''output/s1/For_Alice.pdf'', js ''output/s1/For_Bob.pdf''], st1)"
    unfolding d b fixture_texts fixture_names by blast
  have ne: "watermarkTexts_of (js ''For Alice,For Bob'') \<noteq> []"
    by (simp add: fixture_texts)
  from processMultiple_state(1) [OF run] have "js ''output/s1'' \<in> dirs st1"
    unfolding d .
  then show ?thesis
    using run d
    by (simp add: route_accepts [OF fixture_upload ne] send_zip_def json_response_def Let_def)
qed

text \<open>
  C8, amended: when processing throws after validation, which a parse failure of the
  source, a refusal of the library to draw the text and an error of the remote service
  all do, the response has status 500 and a JSON body whose details are the message of
  the error, and on return the session directory and everything in it are gone, with
  no removal left to a timer. A failure that the archive writer reports is answered
  with status 500 and a JSON body that has an error text only.
\<close>

theorem C8_processing_error:
  assumes "upload_single r = Inr (Some f)" and "watermarks (req_body r) = Str w"
    and "watermarkTexts_of w \<noteq> []"
  shows
    "(processMultipleWatermarks e (buffer f) (watermarkTexts_of w) (path_join (outputDir e) sid)
        (parse_options (req_body r)) st = (Inl err, st1) \<longrightarrow>
      fst (post_watermark e sid r st) =
        \<lparr> status = 500, content_type = ''application/json; charset=utf-8'', disposition = None,
          payload = Json ''Failed to process watermark request'' (Some (message err)) \<rparr> \<and>
      path_join (outputDir e) sid \<notin> dirs (snd (post_watermark e sid r st)) \<and>
      (\<forall>p. inside (path_join (outputDir e) sid) p \<longrightarrow> files (snd (post_watermark e sid r st)) p = None) \<and>
      timers (snd (post_watermark e sid r st)) = timers st) \<and>
     (load e (buffer f) = Inl m \<longrightarrow>
      payload (fst (post_watermark e sid r st)) =
        Json ''Failed to process watermark request'' (Some m)) \<and>
     (load e (buffer f) = Inr pages \<and> pages \<noteq> [] \<and>
      \<not> opacity_in_range (case opacity (parse_options (req_body r)) of
          None \<Rightarrow> Fin (1/2) | Some v \<Rightarrow> v) \<longrightarrow>
      payload (fst (post_watermark e sid r st)) =
        Json ''Failed to process watermark request''
          (Some (range_message e (case opacity (parse_options (req_body r)) of
             None \<Rightarrow> Fin (1/2) | Some v \<Rightarrow> v))) \<and>
      jobs (snd (post_watermark e sid r st)) = jobs st) \<and>
     ((\<forall>t \<in> set (watermarkTexts_of w).
         \<exists>ov. createWatermarkPdf e (buffer f) t (parse_options (req_body r)) = Inr ov) \<and>
      (\<forall>n ov. submit e n (buffer f) ov = Inl m) \<longrightarrow>
      payload (fst (post_watermark e sid r st)) =
        Json ''Failed to process watermark request'' (Some m)) \<and>
     (processMultipleWatermarks e (buffer f) (watermarkTexts_of w) (path_join (outputDir e) sid)
        (parse_options (req_body r)) st = (Inr outputPaths, st2) \<and> 2 \<le> length outputPaths \<and>
      archive e = ArchiveError rejects \<longrightarrow>
      fst (post_watermark e sid r st) =
        \<lparr> status = 500, content_type = ''application/json; charset=utf-8'', disposition = None,
          payload = Json ''Failed to create ZIP archive'' None \<rparr>)"
proof (intro conjI impI allI)
  let ?dir = "path_join (outputDir e) sid"
  let ?opts = "parse_options (req_body r)"
  note resp = route_accepts [OF assms, of e sid st]
  {
    assume run: "processMultipleWatermarks e (buffer f) (watermarkTexts_of w) ?dir ?opts st =
        (Inl err, st1)"
    note s = processMultiple_state [OF run]
    show "fst (post_watermark e sid r st) =
        \<lparr> status = 500, content_type = ''application/json; charset=utf-8'', disposition = None,
          payload = Json ''Failed to process watermark request'' (Some (message err)) \<rparr>"
      by (simp add: resp run json_response_def)
    show "?dir \<notin> dirs (snd (post_watermark e sid r st))"
      using cleanup_removes(1) [OF s(1)] by (simp add: resp run)
    show "timers (snd (post_watermark e sid r st)) = timers st"
      using cleanup_removes(3) [OF s(1)] s(2) by (simp add: resp run)
    fix p
    assume "inside ?dir p"
    then show "files (snd (post_watermark e sid r st)) p = None"
      using cleanup_removes(2) [OF s(1)] by (simp add: resp run)
  }
  {
    assume "load e (buffer f) = Inl m"
    then have "\<forall>t \<in> set (watermarkTexts_of w). \<forall>p st. \<exists>st'.
        applyWatermark e (buffer f) t p ?opts st = (Inl (ParseFailure m), st')"
      by (simp add: applyWatermark_parse_failure)
    from processMultiple_fails [OF this assms(3), of ?dir st]
    show "payload (fst (post_watermark e sid r st)) =
        Json ''Failed to process watermark request'' (Some m)"
      by (auto simp: resp json_response_def message_def)
  }
  {
    let ?op = "case opacity ?opts of None \<Rightarrow> Fin (1/2) | Some v \<Rightarrow> v"
    assume a: "load e (buffer f) = Inr pages \<and> pages \<noteq> [] \<and> \<not> opacity_in_range ?op"
    then have p: "load e (buffer f) = Inr pages" "pages \<noteq> []"
      by simp_all
    from a have "drawText e (expected_text e (reference_page pages) t ?opts) =
        Some (range_message e ?op)" for t
      by (simp add: drawText_def expected_text_def)
    then have c: "createWatermarkPdf e (buffer f) t ?opts = Inl (DrawFailure (range_message e ?op))"
      for t
      by (simp add: createWatermarkPdf_parsed [OF p])
    then have "\<forall>t \<in> set (watermarkTexts_of w). \<forall>p st. \<exists>st'.
        applyWatermark e (buffer f) t p ?opts st = (Inl (DrawFailure (range_message e ?op)), st')"
      by (simp add: applyWatermark_overlay_failure)
    from processMultiple_fails [OF this assms(3), of ?dir st]
    show "payload (fst (post_watermark e sid r st)) =
        Json ''Failed to process watermark request'' (Some (range_message e ?op))"
      by (auto simp: resp json_response_def message_def)
    have "jobs st' = jobs st0" if "process_loop e (buffer f) ?dir ?opts ws acc st0 = (x, st')"
      for ws acc st0 x st'
      using that
      by (induction ws arbitrary: acc st0)
        (auto simp: Let_def applyWatermark_overlay_failure [OF c] split: if_splits)
    then have "jobs (snd (processMultipleWatermarks e (buffer f) (watermarkTexts_of w) ?dir ?opts st)) =
        jobs st"
      by (cases "process_loop e (buffer f) ?dir ?opts (watermarkTexts_of w) []
          (if ?dir \<in> dirs st then st else mkdirSync ?dir st)")
        (auto simp: processMultipleWatermarks_def mkdirSync_def)
    then show "jobs (snd (post_watermark e sid r st)) = jobs st"
      by (auto simp: resp cleanup_on_error_def rmSync_def send_zip_def Let_def
          split: prod.splits sum.splits archive_outcome.splits)
  }
  {
    assume a: "(\<forall>t \<in> set (watermarkTexts_of w).
         \<exists>ov. createWatermarkPdf e (buffer f) t ?opts = Inr ov) \<and>
      (\<forall>n ov. submit e n (buffer f) ov = Inl m)"
    then have "\<forall>t \<in> set (watermarkTexts_of w). \<forall>p st. \<exists>st'.
        applyWatermark e (buffer f) t p ?opts st = (Inl (RemoteFailure m), st')"
      by (auto intro: applyWatermark_remote_failure)
    from processMultiple_fails [OF this assms(3), of ?dir st]
    show "payload (fst (post_watermark e sid r st)) =
        Json ''Failed to process watermark request'' (Some m)"
      by (auto simp: resp json_response_def message_def)
  }
  {
    assume "processMultipleWatermarks e (buffer f) (watermarkTexts_of w) ?dir ?opts st =
        (Inr outputPaths, st2) \<and> 2 \<le> length outputPaths \<and> archive e = ArchiveError rejects"
    then show "fst (post_watermark e sid r st) =
        \<lparr> status = 500, content_type = ''application/json; charset=utf-8'', disposition = None,
          payload = Json ''Failed to create ZIP archive'' None \<rparr>"
      by (auto simp: resp send_zip_def json_response_def Let_def)
  }
qed

theorem C8_processing_error_witness:
  "payload (fst (post_watermark (fixture_env\<lparr>submit := \<lambda>n src ov. Inl ''Quota exceeded''\<rparr>)
      (js ''s1'') (fixture_request ''application/pdf'' ''For Alice,For Bob'') fixture_world)) =
     Json ''Failed to process watermark request'' (Some ''Quota exceeded'') \<and>
   status (fst (post_watermark (fixture_env\<lparr>submit := \<lambda>n src ov. Inl ''Quota exceeded''\<rparr>)
      (js ''s1'') (fixture_request ''application/pdf'' ''For Alice,For Bob'') fixture_world)) = 500 \<and>
   js ''output/s1'' \<notin> dirs (snd (post_watermark
      (fixture_env\<lparr>submit := \<lambda>n src ov. Inl ''Quota exceeded''\<rparr>)
      (js ''s1'') (fixture_request ''application/pdf'' ''For Alice,For Bob'') fixture_world)) \<and>
   payload (fst (post_watermark fixture_env (js ''s1'')
      ((fixture_request ''application/pdf'' ''For Alice,For Bob'')
         \<lparr>req_body := (no_options (Str (js ''For Alice,For Bob'')))\<lparr>opacity_field := Str (js ''7'')\<rparr>\<rparr>)
      fixture_world)) =
     Json ''Failed to process watermark request'' (Some ''opacity must be at least 0 and at most 1'')"
proof -
  let ?e = "fixture_env\<lparr>submit := \<lambda>n src ov. Inl ''Quota exceeded''\<rparr>"
  let ?r = "fixture_request ''application/pdf'' ''For Alice,For Bob''"
  let ?r7 = "?r\<lparr>req_body := (no_options (Str (js ''For Alice,For Bob'')))\<lparr>opacity_field := Str (js ''7'')\<rparr>\<rparr>"
  let ?f = "\<lparr> mimetype = ''application/pdf'', buffer = [37, 100, 200, 150, 90] \<rparr>"
  let ?pages = "[\<lparr>width = Fin 100, height = Fin 200\<rparr>, \<lparr>width = Fin 200, height = Fin 400\<rparr>,
          \<lparr>width = Fin 150, height = Fin 300\<rparr>, \<lparr>width = Fin 90, height = Fin 180\<rparr>]"
  have ne: "watermarkTexts_of (js ''For Alice,For Bob'') \<noteq> []"
    by (simp add: fixture_texts)
  have b: "buffer ?f = [37, 100, 200, 150, 90]"
    "req_body ?r = no_options (Str (js ''For Alice,For Bob''))"
    by (simp_all add: fixture_request_def)
  have s: "\<forall>n ov. submit ?e n (buffer ?f) ov = Inl ''Quota exceeded''"
    by simp
  have d: "path_join (outputDir ?e) (js ''s1'') = js ''output/s1''"
    by (simp add: fixture_env_def path_join_def js_def)
  have e: "load ?e = load fixture_env" "toUpperCase ?e = toUpperCase fixture_env"
    "draw_rejects ?e = draw_rejects fixture_env"
    by simp_all
  have o: "\<forall>t \<in> set (watermarkTexts_of (js ''For Alice,For Bob'')).
      \<exists>ov. createWatermarkPdf ?e (buffer ?f) t (parse_options (req_body ?r)) = Inr ov"
    unfolding fixture_texts b
    using fixture_overlay [OF e plain_phrases(1) default_opacity]
      fixture_overlay [OF e plain_phrases(2) default_opacity]
    by simp
  have "\<forall>t \<in> set (watermarkTexts_of (js ''For Alice,For Bob'')). \<forall>p st. \<exists>st'.
      applyWatermark ?e (buffer ?f) t p (parse_options (req_body ?r)) st =
        (Inl (RemoteFailure ''Quota exceeded''), st')"
  proof (intro ballI allI)
    fix t p st
    assume "t \<in> set (watermarkTexts_of (js ''For Alice,For Bob''))"
    with o obtain ov where
      "createWatermarkPdf ?e (buffer ?f) t (parse_options (req_body ?r)) = Inr ov"
      by blast
    from applyWatermark_remote_failure [OF this s]
    show "\<exists>st'. applyWatermark ?e (buffer ?f) t p (parse_options (req_body ?r)) st =
        (Inl (RemoteFailure ''Quota exceeded''), st')"
      by blast
  qed
  from processMultiple_fails [OF this ne, of "path_join (outputDir ?e) (js ''s1'')" fixture_world]
  obtain st1 where run: "processMultipleWatermarks ?e (buffer ?f)
      (watermarkTexts_of (js ''For Alice,For Bob'')) (path_join (outputDir ?e) (js ''s1''))
      (parse_options (req_body ?r)) fixture_world = (Inl (RemoteFailure ''Quota exceeded''), st1)"
    by blast
  note c = C8_processing_error [OF fixture_upload ne, of ?e "js ''s1''" fixture_world
      "RemoteFailure ''Quota exceeded''" st1 "''Quota exceeded''"]
  from c run have "status (fst (post_watermark ?e (js ''s1'') ?r fixture_world)) = 500"
    and "path_join (outputDir ?e) (js ''s1'') \<notin> dirs (snd (post_watermark ?e (js ''s1'') ?r fixture_world))"
    by simp_all
  moreover from c o s have "payload (fst (post_watermark ?e (js ''s1'') ?r fixture_world)) =
      Json ''Failed to process watermark request'' (Some ''Quota exceeded'')"
    by blast
  moreover have "payload (fst (post_watermark fixture_env (js ''s1'') ?r7 fixture_world)) =
      Json ''Failed to process watermark request'' (Some ''opacity must be at least 0 and at most 1'')"
  proof -
    have u: "upload_single ?r7 = Inr (Some ?f)"
      "watermarks (req_body ?r7) = Str (js ''For Alice,For Bob'')"
      by (simp_all add: upload_single_def fixture_defs)
    have l: "load fixture_env (buffer ?f) = Inr ?pages"
      by (simp add: fixture_env_def)
    have op: "(case opacity (parse_options (req_body ?r7)) of None \<Rightarrow> Fin (1/2) | Some v \<Rightarrow> v) = Fin 7"
      by (simp add: parse_options_def no_options_def parser_defs or_default_def truthy_def is_zero_def)
    have r: "\<not> opacity_in_range (Fin 7)"
      by (simp add: opacity_in_range_def)
    from C8_processing_error [OF u ne, where e = fixture_env and pages = ?pages
        and sid = "js ''s1''" and st = fixture_world] l r
    show ?thesis
      unfolding op by (simp add: fixture_env_def)
  qed
  ultimately show ?thesis
    unfolding d by blast
qed

text \<open>
  C7: a request without a file, and one whose phrase list is empty after splitting and
  trimming, are answered with status 400 and a JSON body with an error text, and the
  state is as before: no overlay was built, no job submitted, nothing written. A file
  that is not a PDF is rejected before the route runs, with the state as before too,
  but the answer comes from the framework's default error handler: status 500 and an
  HTML page, not status 4xx and JSON.
\<close>

theorem C7_rejections:
  "(pdf_part r = None \<longrightarrow>
      post_watermark e sid r st =
        (\<lparr> status = 400, content_type = ''application/json; charset=utf-8'', disposition = None,
           payload = Json ''No PDF file uploaded'' None \<rparr>, st)) \<and>
   (upload_single r = Inr (Some f) \<and> watermarks (req_body r) = Str w \<and> watermarkTexts_of w = [] \<longrightarrow>
      status (fst (post_watermark e sid r st)) = 400 \<and>
      content_type (fst (post_watermark e sid r st)) = ''application/json; charset=utf-8'' \<and>
      (\<exists>msg. payload (fst (post_watermark e sid r st)) = Json msg None) \<and>
      snd (post_watermark e sid r st) = st) \<and>
   (pdf_part r = Some f \<and> mimetype f \<noteq> ''application/pdf'' \<longrightarrow>
      post_watermark e sid r st =
        (\<lparr> status = 500, content_type = ''text/html; charset=utf-8'', disposition = None,
           payload = ErrorPage ''Only PDF files are allowed'' \<rparr>, st))"
  by (auto simp: post_watermark_def upload_single_def watermark_route_def json_response_def
      default_error_handler_def Let_def)

theorem C7_rejections_witness:
  "post_watermark fixture_env (js ''s1'') (fixture_request ''text/plain'' ''For Alice'') fixture_world =
     (\<lparr> status = 500, content_type = ''text/html; charset=utf-8'', disposition = None,
        payload = ErrorPage ''Only PDF files are allowed'' \<rparr>, fixture_world) \<and>
   post_watermark fixture_env (js ''s1'')
      ((fixture_request ''application/pdf'' ''For Alice'')\<lparr>pdf_part := None\<rparr>) fixture_world =
     (\<lparr> status = 400, content_type = ''application/json; charset=utf-8'', disposition = None,
        payload = Json ''No PDF file uploaded'' None \<rparr>, fixture_world) \<and>
   watermarkTexts_of (js '' , ,'') = [] \<and>
   status (fst (post_watermark fixture_env (js ''s1'')
      (fixture_request ''application/pdf'' '' , ,'') fixture_world)) = 400 \<and>
   snd (post_watermark fixture_env (js ''s1'')
      (fixture_request ''application/pdf'' '' , ,'') fixture_world) = fixture_world"
proof -
  let ?f = "\<lparr> mimetype = ''text/plain'', buffer = [37, 100, 200, 150, 90] \<rparr>"
  have p: "pdf_part (fixture_request ''text/plain'' ''For Alice'') = Some ?f"
    "mimetype ?f \<noteq> ''application/pdf''"
    "pdf_part ((fixture_request ''application/pdf'' ''For Alice'')\<lparr>pdf_part := None\<rparr>) = None"
    by (simp_all add: fixture_request_def)
  have t: "watermarkTexts_of (js '' , ,'') = []"
    by (simp add: text_defs)
  note a = C7_rejections [of "fixture_request ''text/plain'' ''For Alice''" fixture_env "js ''s1''"
      fixture_world ?f]
  note b = C7_rejections [of "(fixture_request ''application/pdf'' ''For Alice'')\<lparr>pdf_part := None\<rparr>"
      fixture_env "js ''s1''" fixture_world]
  note c = C7_rejections [of "fixture_request ''application/pdf'' '' , ,''" fixture_env "js ''s1''"
      fixture_world "\<lparr> mimetype = ''application/pdf'', buffer = [37, 100, 200, 150, 90] \<rparr>" "js '' , ,''"]
  from a p have 1: "post_watermark fixture_env (js ''s1'') (fixture_request ''text/plain'' ''For Alice'')
      fixture_world =
     (\<lparr> status = 500, content_type = ''text/html; charset=utf-8'', disposition = None,
        payload = ErrorPage ''Only PDF files are allowed'' \<rparr>, fixture_world)"
    by blast
  from b p have 2: "post_watermark fixture_env (js ''s1'')
      ((fixture_request ''application/pdf'' ''For Alice'')\<lparr>pdf_part := None\<rparr>) fixture_world =
     (\<lparr> status = 400, content_type = ''application/json; charset=utf-8'', disposition = None,
        payload = Json ''No PDF file uploaded'' None \<rparr>, fixture_world)"
    by blast
  from c fixture_upload t have 3: "status (fst (post_watermark fixture_env (js ''s1'')
      (fixture_request ''application/pdf'' '' , ,'') fixture_world)) = 400"
    "snd (post_watermark fixture_env (js ''s1'')
      (fixture_request ''application/pdf'' '' , ,'') fixture_world) = fixture_world"
    by blast+
  from 1 2 3 t show ?thesis by blast
qed

end
